theory Spec2Isabelle
  imports Complex_Main "HOL-Library.AList" "HOL-Library.Char_ord" "HOL-Library.List_Lexorder"
begin

section \<open>Role-gated routing (components/ProtectedRoute.tsx)\<close>

text \<open>
  The auth context hands the guard a user object (or null), a role and a loading flag.
  The role is declared \<open>string | null\<close>, but it is read back from a JSON cookie, and
  the guard itself tests \<open>typeof role === "string"\<close>; the third constructor stands
  for every value that is neither null nor a string.
\<close>

record User =
  User_id :: string
  User_email :: string
  User_created_at :: string

datatype role_value = RoleNull | RoleString string | RoleNotAString

record AuthContextType =
  user :: "User option"
  role :: role_value
  loading :: bool

text \<open>
  What the component renders: the spinner, a \<open>Navigate to=... replace\<close> redirect, or
  the \<open>Outlet\<close>, which renders the child route that was requested.
\<close>

datatype element = Spinner | Navigate string | Outlet

definition allowedRoles :: "string list" where
  "allowedRoles = [''student'', ''teacher'', ''coordinator'']"

definition ProtectedRoute :: "AuthContextType \<Rightarrow> element" where
  "ProtectedRoute ctx =
     (if loading ctx then Spinner
      else if user ctx = None then Navigate ''/''
      else if role ctx = RoleString ''admin'' then Outlet
      else if role ctx = RoleString ''pending'' then Navigate ''/pending-activation''
      else (case role ctx of
              RoleString r \<Rightarrow> if r \<in> set allowedRoles then Outlet else Navigate ''/''
            | _ \<Rightarrow> Navigate ''/''))"

section \<open>Grading report cells (pages/Reports.tsx, gradingColumns)\<close>

text \<open>
  A score is \<open>number | null\<close>. The comparison \<open>value < 70\<close> on finite numbers is exact,
  so a score is modelled by the real number it denotes.
\<close>

record Student =
  Student_id :: string
  first_name :: string
  last_name :: string

record GradingReport =
  GradingReport_id :: string
  listening :: "real option"
  reading :: "real option"
  writing :: "real option"
  speaking :: "real option"
  grammar_vocab :: "real option"
  project :: "real option"
  conversation :: "real option"
  comment :: "string option"
  student :: "Student option"

text \<open>The rendered \<open>span\<close>: its class name and its content (the number, or the text N/A).\<close>

datatype span_content = Number real | Text string

record span =
  className :: string
  content :: span_content

definition isLowGrade :: "real option \<Rightarrow> bool" where
  "isLowGrade v = (case v of None \<Rightarrow> False | Some x \<Rightarrow> x < 70)"

definition score_cell :: "real option \<Rightarrow> span" where
  "score_cell v =
     \<lparr> className = (if isLowGrade v then ''bg-red-100 px-2 py-1 rounded'' else ''''),
       content = (case v of None \<Rightarrow> Text ''N/A'' | Some x \<Rightarrow> Number x) \<rparr>"

text \<open>The seven skill columns, each with its header and the cell it renders for a row.\<close>

definition gradingColumns :: "(string \<times> (GradingReport \<Rightarrow> span)) list" where
  "gradingColumns =
     [(''Listening'', \<lambda>row. score_cell (listening row)),
      (''Reading'', \<lambda>row. score_cell (reading row)),
      (''Writing'', \<lambda>row. score_cell (writing row)),
      (''Speaking'', \<lambda>row. score_cell (speaking row)),
      (''Grammar/Vocab'', \<lambda>row. score_cell (grammar_vocab row)),
      (''Project'', \<lambda>row. score_cell (project row)),
      (''Conversation'', \<lambda>row. score_cell (conversation row))]"

section \<open>Sign-up (pages/SignUp.tsx, onSubmit)\<close>

record SignUpFormData =
  name :: string
  email :: string
  password :: string
  confirmPassword :: string

text \<open>A row of the \<open>users\<close> table, with the columns the insert gives.\<close>

record users_row =
  users_id :: string
  users_email :: string
  users_full_name :: string
  users_role :: string
  users_created_at :: string

text \<open>The requests the handler sends, and the three pieces of component state it sets.\<close>

datatype signup_request =
    AuthSignUp string string string
  | UsersInsert "users_row list"

record SignUp_state =
  SignUp_loading :: bool
  SignUp_error :: "string option"
  SignUp_success :: "string option"

text \<open>
  The two answers of the backend are arguments: \<open>signUpError\<close> and the user of
  \<open>signUpData\<close> for \<open>auth.signUp\<close>, \<open>dbError\<close> for the insert. A thrown error is
  caught and stored in \<open>error\<close>; \<open>finally\<close> clears \<open>loading\<close> on every path.
\<close>

definition onSubmit ::
  "SignUpFormData \<Rightarrow> string option \<Rightarrow> User option \<Rightarrow> string option
     \<Rightarrow> signup_request list \<times> SignUp_state" where
  "onSubmit data signUpError signUpData_user dbError =
     (let signUp = AuthSignUp (email data) (password data) (name data) in
      case signUpError of
        Some message \<Rightarrow>
          ([signUp], \<lparr> SignUp_loading = False, SignUp_error = Some message, SignUp_success = None \<rparr>)
      | None \<Rightarrow>
          (case signUpData_user of
             None \<Rightarrow>
               ([signUp], \<lparr> SignUp_loading = False, SignUp_error = None, SignUp_success = None \<rparr>)
           | Some u \<Rightarrow>
               (let insert_rows =
                      [\<lparr> users_id = User_id u, users_email = User_email u,
                         users_full_name = name data, users_role = ''pending'',
                         users_created_at = User_created_at u \<rparr>]
                in case dbError of
                     Some message \<Rightarrow>
                       ([signUp, UsersInsert insert_rows],
                        \<lparr> SignUp_loading = False, SignUp_error = Some message, SignUp_success = None \<rparr>)
                   | None \<Rightarrow>
                       ([signUp, UsersInsert insert_rows],
                        \<lparr> SignUp_loading = False, SignUp_error = None,
                          SignUp_success =
                            Some ''Sign-up successful! Check your email to confirm your account.'' \<rparr>))))"

section \<open>The remote store and the mutation hook\<close>

text \<open>
  A date string of the store (\<open>yyyy-MM-dd\<close>) is modelled by the calendar day it denotes,
  counted in days since 1970-01-01.
\<close>

type_synonym iso_date = int

record Quarter =
  Quarter_id :: string
  Quarter_name :: string
  start_date :: iso_date
  end_date :: iso_date
  break_dates :: "iso_date list option"
  active :: bool

datatype AttendanceStatus = present | absent | tardy

record AttendanceRecord =
  classroom_id :: string
  student_id :: string
  quarter_id :: string
  class_date :: string
  status :: AttendanceStatus

text \<open>
  What the pages do to the outside, in the order they do it: a call to the remote
  store, its settlement (\<open>None\<close>: resolved without error, \<open>Some message\<close>: the
  error it reported), and an invalidation of a cached query by its key. A key
  component that is \<open>undefined\<close> is \<open>None\<close>.
\<close>

datatype event =
    Call string
  | Settled "string option"
  | InvalidateQueries "string option list"

record world =
  quarters :: "Quarter list"
  attendance :: "AttendanceRecord list"
  activeQuarter :: "Quarter option"
  trace :: "event list"

text \<open>
  Modelled from the spec: the remote store's filtered update (section 6, "per-table
  read, insert, update, upsert and delete operations"); the client library and the
  database are not part of the repository. \<open>update(values).eq/neq(...)\<close> applies the new
  values to every row the filter selects and leaves the others as they are.
\<close>

definition update_rows :: "('r \<Rightarrow> bool) \<Rightarrow> ('r \<Rightarrow> 'r) \<Rightarrow> 'r list \<Rightarrow> 'r list" where
  "update_rows selected values rows = map (\<lambda>r. if selected r then values r else r) rows"

text \<open>
  Modelled from the spec: the remote store's upsert (glossary: "insert-or-update keyed
  on a specified uniqueness constraint, overwriting on conflict"). \<open>key\<close> reads the
  columns named by \<open>onConflict\<close>; with \<open>ignoreDuplicates\<close> a conflicting row is
  kept as it is, without it the new row replaces it; a row without conflict is added.
\<close>

fun upsert_row :: "('r \<Rightarrow> 'k) \<Rightarrow> bool \<Rightarrow> 'r \<Rightarrow> 'r list \<Rightarrow> 'r list" where
  "upsert_row key ignoreDuplicates r [] = [r]"
| "upsert_row key ignoreDuplicates r (x # xs) =
     (if key x = key r then (if ignoreDuplicates then x else r) # xs
      else x # upsert_row key ignoreDuplicates r xs)"

text \<open>
  Modelled from the spec: the upsert of a batch of records ("bulk upsert of one record
  per student"), which upserts them one after the other.
\<close>

definition upsert :: "('r \<Rightarrow> 'k) \<Rightarrow> bool \<Rightarrow> 'r list \<Rightarrow> 'r list \<Rightarrow> 'r list" where
  "upsert key ignoreDuplicates records rows =
     foldl (\<lambda>table r. upsert_row key ignoreDuplicates r table) rows records"

text \<open>
  The mutation hook of the query library: \<open>mutate\<close> runs \<open>mutationFn\<close>; when its
  promise is rejected (\<open>Inl\<close>) the mutation ends in error, when it resolves
  (\<open>Inr\<close>) the hook then calls \<open>onSuccess\<close> with the data.
\<close>

definition useMutation ::
  "('v \<Rightarrow> world \<Rightarrow> (string + 'a) \<times> world) \<Rightarrow> ('a \<Rightarrow> world \<Rightarrow> world)
     \<Rightarrow> 'v \<Rightarrow> world \<Rightarrow> (string + 'a) \<times> world" where
  "useMutation mutationFn onSuccess variables w =
     (case mutationFn variables w of
        (Inl err, w') \<Rightarrow> (Inl err, w')
      | (Inr data, w') \<Rightarrow> (Inr data, onSuccess data w'))"

definition log :: "event list \<Rightarrow> world \<Rightarrow> world" where
  "log es w = w\<lparr> trace := trace w @ es \<rparr>"

section \<open>Quarter activation (pages/Quarters.tsx, handleActivate)\<close>

text \<open>
  The answers of the store to the two updates are arguments: \<open>None\<close> when the store
  carries the update out, \<open>Some message\<close> when it reports an error and changes
  nothing. \<open>.select().single()\<close> on the second update asks for exactly one updated
  row; with none or several the store reports an error and the update is not kept.
\<close>

definition handleActivate_mutationFn ::
  "string option \<Rightarrow> string option \<Rightarrow> string \<Rightarrow> world \<Rightarrow> (string + Quarter) \<times> world" where
  "handleActivate_mutationFn deactivateError activateError quarterId w =
     (case deactivateError of
        Some message \<Rightarrow>
          (Inl message, log [Call ''quarters.update'', Settled (Some message)] w)
      | None \<Rightarrow>
          (let w1 = log [Call ''quarters.update'', Settled None]
                      (w\<lparr> quarters :=
                            update_rows (\<lambda>q. Quarter_id q \<noteq> quarterId) (\<lambda>q. q\<lparr> active := False \<rparr>)
                              (quarters w) \<rparr>)
           in case activateError of
                Some message \<Rightarrow>
                  (Inl message, log [Call ''quarters.update'', Settled (Some message)] w1)
              | None \<Rightarrow>
                  (let updated =
                         update_rows (\<lambda>q. Quarter_id q = quarterId) (\<lambda>q. q\<lparr> active := True \<rparr>)
                           (quarters w1)
                   in case filter (\<lambda>q. Quarter_id q = quarterId) updated of
                        [data] \<Rightarrow>
                          (Inr data,
                           log [Call ''quarters.update'', Settled None] (w1\<lparr> quarters := updated \<rparr>))
                      | _ \<Rightarrow>
                          (Inl ''JSON object requested, multiple (or no) rows returned'',
                           log [Call ''quarters.update'',
                                Settled (Some ''JSON object requested, multiple (or no) rows returned'')]
                             w1))))"

definition handleActivate_onSuccess :: "Quarter \<Rightarrow> world \<Rightarrow> world" where
  "handleActivate_onSuccess updatedQuarter w =
     (log [InvalidateQueries [Some ''quarters'']] w)\<lparr> activeQuarter := Some updatedQuarter \<rparr>"

definition handleActivate ::
  "string option \<Rightarrow> string option \<Rightarrow> string \<Rightarrow> world \<Rightarrow> (string + Quarter) \<times> world" where
  "handleActivate deactivateError activateError =
     useMutation (handleActivate_mutationFn deactivateError activateError) handleActivate_onSuccess"

section \<open>Attendance capture (pages/Attendance.tsx)\<close>

text \<open>
  The state of the page: the two selections and the \<open>Map\<close> from student id to status,
  given by its entries in insertion order. \<open>handleStatusChange\<close> copies the map and
  sets one key: an existing key keeps its place, a new one goes to the end.
\<close>

record Attendance_page =
  selectedClassroom :: string
  selectedDate :: string
  attendanceRecords :: "(string \<times> AttendanceStatus) list"

definition handleStatusChange ::
  "string \<Rightarrow> AttendanceStatus \<Rightarrow> Attendance_page \<Rightarrow> Attendance_page" where
  "handleStatusChange studentId st page =
     page\<lparr> attendanceRecords := AList.update studentId st (attendanceRecords page) \<rparr>"

text \<open>The key of the cached read of the existing attendance of a classroom and date.\<close>

definition existingAttendance_queryKey :: "Attendance_page \<Rightarrow> world \<Rightarrow> string option list" where
  "existingAttendance_queryKey page w =
     [Some ''attendance'', Some (selectedClassroom page), Some (selectedDate page),
      map_option Quarter_id (activeQuarter w)]"

text \<open>The columns of \<open>onConflict: 'classroom_id,student_id,class_date,quarter_id'\<close>.\<close>

definition onConflict :: "AttendanceRecord \<Rightarrow> string \<times> string \<times> string \<times> string" where
  "onConflict r = (classroom_id r, student_id r, class_date r, quarter_id r)"

text \<open>
  The answer of the store to the upsert is an argument (\<open>None\<close>: carried out,
  \<open>Some message\<close>: an error, nothing stored). \<open>!activeQuarter?.id\<close> holds for a
  missing quarter and for an empty id.
\<close>

definition records :: "Attendance_page \<Rightarrow> Quarter \<Rightarrow> AttendanceRecord list" where
  "records page q =
     map (\<lambda>(studentId, st).
            \<lparr> classroom_id = selectedClassroom page, student_id = studentId,
              quarter_id = Quarter_id q, class_date = selectedDate page, status = st \<rparr>)
       (attendanceRecords page)"

definition saveAttendance_mutationFn ::
  "string option \<Rightarrow> Attendance_page \<Rightarrow> unit \<Rightarrow> world \<Rightarrow> (string + unit) \<times> world" where
  "saveAttendance_mutationFn upsertError page variables w =
     (case activeQuarter w of
        None \<Rightarrow> (Inl ''No active quarter selected'', w)
      | Some q \<Rightarrow>
          if Quarter_id q = [] then (Inl ''No active quarter selected'', w)
          else
            (case upsertError of
               Some message \<Rightarrow>
                 (Inl message, log [Call ''attendance.upsert'', Settled (Some message)] w)
             | None \<Rightarrow>
                 (Inr (),
                  log [Call ''attendance.upsert'', Settled None]
                    (w\<lparr> attendance := upsert onConflict False (records page q) (attendance w) \<rparr>))))"

definition saveAttendance_onSuccess :: "Attendance_page \<Rightarrow> unit \<Rightarrow> world \<Rightarrow> world" where
  "saveAttendance_onSuccess page data w =
     log [InvalidateQueries
            [Some ''attendance'', Some (selectedClassroom page), Some (selectedDate page),
             map_option Quarter_id (activeQuarter w)]] w"

definition saveAttendanceMutation ::
  "string option \<Rightarrow> Attendance_page \<Rightarrow> world \<Rightarrow> (string + unit) \<times> world" where
  "saveAttendanceMutation upsertError page =
     useMutation (saveAttendance_mutationFn upsertError page) (saveAttendance_onSuccess page) ()"

section \<open>Schedule date derivation (pages/Attendance.tsx, classDates)\<close>

record ClassSchedule =
  ClassSchedule_id :: string
  days :: "string list option"

record Classroom =
  Classroom_id :: string
  Classroom_name :: string
  class_schedule :: "ClassSchedule option"
  students :: "Student list"

subsection \<open>Dates\<close>

text \<open>
  A \<open>Date\<close> made from a date string is the local midnight of its day, and adding
  one to the day of the month moves it to the next midnight; so the time value of a
  \<open>Date\<close> is modelled by the number of its day (days since 1970-01-01, a Thursday).
  \<open>parseISO\<close> of a date string is then the day the string denotes, and
  \<open>days_from_civil\<close> gives that day for year, month and day of the month.
  \<open>getDay\<close> counts the weekday from Sunday = 0; \<open>format(d, 'EEEE')\<close> is its
  English name. \<open>format(d, 'yyyy-MM-dd')\<close> is one-to-one on days, so two dates have
  the same such string exactly when their days are equal.
\<close>

definition days_from_civil :: "int \<Rightarrow> int \<Rightarrow> int \<Rightarrow> iso_date" where
  "days_from_civil y m d =
     (let y' = (if m \<le> 2 then y - 1 else y);
          era = y' div 400;
          yoe = y' - era * 400;
          doy = (153 * (if m > 2 then m - 3 else m + 9) + 2) div 5 + d - 1;
          doe = yoe * 365 + yoe div 4 - yoe div 100 + doy
      in era * 146097 + doe - 719468)"

definition parseISO :: "iso_date \<Rightarrow> int" where
  "parseISO s = s"

definition getDay :: "int \<Rightarrow> nat" where
  "getDay t = nat ((t + 4) mod 7)"

definition format_EEEE :: "int \<Rightarrow> string" where
  "format_EEEE t =
     [''Sunday'', ''Monday'', ''Tuesday'', ''Wednesday'', ''Thursday'', ''Friday'', ''Saturday'']
       ! getDay t"

definition isWeekend :: "int \<Rightarrow> bool" where
  "isWeekend t = (getDay t = 0 \<or> getDay t = 6)"

definition same_yyyy_MM_dd :: "int \<Rightarrow> int \<Rightarrow> bool" where
  "same_yyyy_MM_dd t t' = (t = t')"

subsection \<open>Date objects\<close>

text \<open>
  \<open>Date\<close> objects are mutable and the loop keeps references to them, so they live
  in a store: \<open>cells\<close> maps the address of an object to its time value, and
  \<open>next_free\<close> is the address the next \<open>new Date\<close> gets. \<open>setDate_tomorrow\<close> is
  \<open>d.setDate(d.getDate() + 1)\<close>: it changes the object at the address in place and
  returns the new time value.
\<close>

type_synonym addr = nat

record heap =
  cells :: "addr \<Rightarrow> int"
  next_free :: addr

definition empty_heap :: heap where
  "empty_heap = \<lparr> cells = (\<lambda>a. 0), next_free = 0 \<rparr>"

definition getTime :: "heap \<Rightarrow> addr \<Rightarrow> int" where
  "getTime h a = cells h a"

definition new_Date :: "int \<Rightarrow> heap \<Rightarrow> addr \<times> heap" where
  "new_Date t h =
     (next_free h, \<lparr> cells = (cells h)(next_free h := t), next_free = Suc (next_free h) \<rparr>)"

definition setDate_tomorrow :: "addr \<Rightarrow> heap \<Rightarrow> int \<times> heap" where
  "setDate_tomorrow a h = (cells h a + 1, h\<lparr> cells := (cells h)(a := cells h a + 1) \<rparr>)"

text \<open>\<open>breakDates = break_dates.map(d => parseISO(d))\<close>: one new object per break date.\<close>

fun new_Dates :: "int list \<Rightarrow> heap \<Rightarrow> addr list \<times> heap" where
  "new_Dates [] h = ([], h)"
| "new_Dates (t # ts) h =
     (case new_Date t h of (a, h1) \<Rightarrow>
        (case new_Dates ts h1 of (as, h2) \<Rightarrow> (a # as, h2)))"

subsection \<open>The loop\<close>

text \<open>The test of the loop body on the current date object.\<close>

definition is_class_day :: "string list \<Rightarrow> addr list \<Rightarrow> addr \<Rightarrow> heap \<Rightarrow> bool" where
  "is_class_day ds breakDates currentDate h =
     (format_EEEE (getTime h currentDate) \<in> set ds
      \<and> \<not> isWeekend (getTime h currentDate)
      \<and> \<not> (\<exists>breakDate \<in> set breakDates.
              same_yyyy_MM_dd (getTime h breakDate) (getTime h currentDate)))"

text \<open>
  \<open>currentDate = new Date(currentDate.setDate(currentDate.getDate() + 1))\<close>: the
  object \<open>currentDate\<close> points to is moved to the next day, and a new object with
  the same time value becomes the current one.
\<close>

definition advance :: "addr \<Rightarrow> heap \<Rightarrow> addr \<times> heap" where
  "advance currentDate h =
     (case setDate_tomorrow currentDate h of (t, h1) \<Rightarrow> new_Date t h1)"

text \<open>
  \<open>dates\<close> is the array of references pushed so far. The loop ends when the current
  date is after the end date; a run that never ends has no result (\<open>None\<close>).
\<close>

partial_function (option) classDates_loop ::
  "string list \<Rightarrow> addr list \<Rightarrow> addr \<Rightarrow> addr \<Rightarrow> addr list \<Rightarrow> heap \<Rightarrow> (addr list \<times> heap) option"
  where
  "classDates_loop ds breakDates endDate currentDate dates h =
     (if getTime h currentDate \<le> getTime h endDate
      then classDates_loop ds breakDates endDate
             (fst (advance currentDate h))
             (if is_class_day ds breakDates currentDate h then dates @ [currentDate] else dates)
             (snd (advance currentDate h))
      else Some (dates, h))"

declare classDates_loop.simps [code]

datatype js_error = TypeError

text \<open>
  The memo: the guards, the three allocations and the loop. The result is the array
  as its reader sees it: the time value each reference has in the final store.
  Reading \<open>days\<close> of a missing schedule and mapping over missing break dates throw.
\<close>

definition classDates ::
  "string \<Rightarrow> Quarter option \<Rightarrow> Classroom list option \<Rightarrow> (js_error + int list) option" where
  "classDates selected quarter classrooms =
     (case quarter of
        None \<Rightarrow> Some (Inr [])
      | Some q \<Rightarrow>
          if selected = [] then Some (Inr [])
          else
            (case (case classrooms of
                     None \<Rightarrow> None
                   | Some cs \<Rightarrow> find (\<lambda>c. Classroom_id c = selected) cs) of
               None \<Rightarrow> Some (Inr [])
             | Some classroom \<Rightarrow>
                 (case class_schedule classroom of
                    None \<Rightarrow> Some (Inl TypeError)
                  | Some schedule \<Rightarrow>
                      (case days schedule of
                         None \<Rightarrow> Some (Inr [])
                       | Some ds \<Rightarrow>
                           (case new_Date (parseISO (start_date q)) empty_heap of
                              (currentDate, h1) \<Rightarrow>
                                (case new_Date (parseISO (end_date q)) h1 of
                                   (endDate, h2) \<Rightarrow>
                                     (case break_dates q of
                                        None \<Rightarrow> Some (Inl TypeError)
                                      | Some bs \<Rightarrow>
                                          (case new_Dates (map parseISO bs) h2 of
                                             (breakDates, h3) \<Rightarrow>
                                               map_option
                                                 (\<lambda>(dates, h). Inr (map (getTime h) dates))
                                                 (classDates_loop ds breakDates endDate
                                                    currentDate [] h3)))))))))"

section \<open>Attendance report (pages/Reports.tsx)\<close>

subsection \<open>Strings\<close>

text \<open>
  A string is modelled by its characters as bytes, which is what a string of ASCII
  characters is; \<open>isASCII\<close> says that a string is one. On such strings
  \<open>toLowerCase\<close> and \<open>toUpperCase\<close> move the letters A to Z and a to z and leave
  every other character as it is, as the definitions below do. Outside ASCII the
  functions of the language change other letters too (and may change the length);
  the definitions do not follow them there, and the properties of the cell are stated
  for ASCII strings. \<open>charAt\<close> gives the one-character string at an index, and the
  empty string outside the string.
\<close>

definition isASCII :: "string \<Rightarrow> bool" where
  "isASCII s = list_all (\<lambda>c. (of_char c :: nat) < 128) s"

definition toLowerCase_char :: "char \<Rightarrow> char" where
  "toLowerCase_char c =
     (let n = of_char c :: nat in if 65 \<le> n \<and> n \<le> 90 then char_of (n + 32) else c)"

definition toUpperCase_char :: "char \<Rightarrow> char" where
  "toUpperCase_char c =
     (let n = of_char c :: nat in if 97 \<le> n \<and> n \<le> 122 then char_of (n - 32) else c)"

definition toLowerCase :: "string \<Rightarrow> string" where
  "toLowerCase s = map toLowerCase_char s"

definition toUpperCase :: "string \<Rightarrow> string" where
  "toUpperCase s = map toUpperCase_char s"

definition charAt :: "string \<Rightarrow> nat \<Rightarrow> string" where
  "charAt s i = (if i < length s then [s ! i] else [])"

subsection \<open>The pivot (attendanceReportData)\<close>

text \<open>The rows of the attendance query, each with the student the join brought (or null).\<close>

record Report_AttendanceRecord =
  att_id :: string
  att_class_date :: string
  att_status :: string
  att_student_id :: string
  att_student :: "Student option"

text \<open>
  \<open>new Set(xs)\<close> keeps the first occurrence of each value, in order. The default
  \<open>sort()\<close> of strings compares code units lexicographically, which on ASCII strings
  is the lexicographic order of the characters.
\<close>

fun Set_values :: "'a list \<Rightarrow> 'a list" where
  "Set_values [] = []"
| "Set_values (x # xs) = x # filter (\<lambda>y. y \<noteq> x) (Set_values xs)"

definition uniqueDates :: "Report_AttendanceRecord list \<Rightarrow> string list" where
  "uniqueDates attendanceData = sort (Set_values (map att_class_date attendanceData))"

text \<open>
  \<open>studentsMap\<close> is a \<open>Map\<close> from student id to student, given by its entries in
  insertion order; a record without a joined student is skipped.
\<close>

definition studentsMap :: "Report_AttendanceRecord list \<Rightarrow> (string \<times> Student) list" where
  "studentsMap attendanceData =
     foldl (\<lambda>m record. case att_student record of
                          None \<Rightarrow> m
                        | Some s \<Rightarrow> AList.update (att_student_id record) s m)
       [] attendanceData"

text \<open>
  A report row is an object: its properties in insertion order, \<open>student_id\<close> and
  \<open>student_name\<close> first, then one property per date. \<open>attendanceRecord?.status ||
  'No Record'\<close> gives the sentinel when no record is found and when the status found
  is the empty string.
\<close>

definition pivot_cell :: "Report_AttendanceRecord list \<Rightarrow> Student \<Rightarrow> string \<Rightarrow> string" where
  "pivot_cell attendanceData s date =
     (case find (\<lambda>record. att_student_id record = Student_id s \<and> att_class_date record = date)
             attendanceData of
        None \<Rightarrow> ''No Record''
      | Some attendanceRecord \<Rightarrow>
          if att_status attendanceRecord = [] then ''No Record'' else att_status attendanceRecord)"

definition pivot_row ::
  "Report_AttendanceRecord list \<Rightarrow> string list \<Rightarrow> Student \<Rightarrow> (string \<times> string) list" where
  "pivot_row attendanceData dates s =
     foldl (\<lambda>row date. AList.update date (pivot_cell attendanceData s date) row)
       [(''student_id'', Student_id s), (''student_name'', first_name s @ '' '' @ last_name s)]
       dates"

text \<open>The result \<open>{ data, dates }\<close> is the pair of the rows and the dates.\<close>

definition attendanceReportData ::
  "Report_AttendanceRecord list option \<Rightarrow> (string \<times> string) list list \<times> string list" where
  "attendanceReportData attendanceData =
     (case attendanceData of
        None \<Rightarrow> ([], [])
      | Some rows \<Rightarrow>
          if rows = [] then ([], [])
          else (map (pivot_row rows (uniqueDates rows)) (map snd (studentsMap rows)),
                uniqueDates rows))"

subsection \<open>The cell of a date column (attendanceColumns)\<close>

text \<open>
  The cell reads \<open>row.original[date]\<close>, which is \<open>undefined\<close> (\<open>None\<close>) when the row
  has no such property, and renders a display value with a class name.
\<close>

definition attendance_cell :: "string option \<Rightarrow> string \<times> string" where
  "attendance_cell st =
     (let statusLower = map_option toLowerCase st in
      if statusLower = Some ''present'' then (''P'', ''bg-green-100 text-green-800'')
      else if statusLower = Some ''absent'' then (''A'', ''bg-red-100 text-red-800'')
      else if statusLower = Some ''late'' \<or> statusLower = Some ''tardy''
        then (''T'', ''bg-yellow-100 text-yellow-800'')
      else (case st of
              None \<Rightarrow> (''-'', ''bg-gray-100 text-gray-800'')
            | Some s \<Rightarrow>
                if s \<noteq> [] \<and> s \<noteq> ''No Record''
                then (toUpperCase (charAt s 0), ''bg-blue-100 text-blue-800'')
                else (''-'', ''bg-gray-100 text-gray-800'')))"

text \<open>
  The mapping as the specification words it, for comparison: any casing of present,
  absent and tardy gives the letter, any other non-empty value but the sentinel gives
  its first character in upper case, the rest gives the dash. A casing of a lower-case
  word has, at each position, the letter of the word or its capital.
\<close>

definition casing_of :: "string \<Rightarrow> string \<Rightarrow> bool" where
  "casing_of word s = list_all2 (\<lambda>c d. d = c \<or> d = toUpperCase_char c) word s"

definition spec_attendance_cell :: "string option \<Rightarrow> string \<times> string" where
  "spec_attendance_cell st =
     (case st of
        None \<Rightarrow> (''-'', ''bg-gray-100 text-gray-800'')
      | Some s \<Rightarrow>
          if casing_of ''present'' s then (''P'', ''bg-green-100 text-green-800'')
          else if casing_of ''absent'' s then (''A'', ''bg-red-100 text-red-800'')
          else if casing_of ''tardy'' s then (''T'', ''bg-yellow-100 text-yellow-800'')
          else if s \<noteq> [] \<and> s \<noteq> ''No Record''
            then ([toUpperCase_char (hd s)], ''bg-blue-100 text-blue-800'')
          else (''-'', ''bg-gray-100 text-gray-800''))"

section \<open>Example data\<close>

text \<open>A store for the examples: three quarters, two of them flagged active.\<close>

definition example_quarters :: "Quarter list" where
  "example_quarters =
     [\<lparr> Quarter_id = ''q1'', Quarter_name = ''Fall'', start_date = 19600, end_date = 19690,
         break_dates = Some [], active = True \<rparr>,
      \<lparr> Quarter_id = ''q2'', Quarter_name = ''Winter'', start_date = 19723, end_date = 19736,
         break_dates = Some [19730], active = False \<rparr>,
      \<lparr> Quarter_id = ''q3'', Quarter_name = ''Spring'', start_date = 19800, end_date = 19890,
         break_dates = None, active = True \<rparr>]"

definition example_world :: world where
  "example_world =
     \<lparr> quarters = example_quarters, attendance = [], activeQuarter = None, trace = [] \<rparr>"

text \<open>An attendance page with two marked students, over a store with one earlier record.\<close>

definition example_page :: Attendance_page where
  "example_page =
     \<lparr> selectedClassroom = ''c1'', selectedDate = ''2024-01-03'',
       attendanceRecords = [(''s1'', present), (''s2'', tardy)] \<rparr>"

definition example_attendance_world :: world where
  "example_attendance_world =
     \<lparr> quarters = example_quarters,
       attendance = [\<lparr> classroom_id = ''c1'', student_id = ''s1'', quarter_id = ''q2'',
                       class_date = ''2024-01-03'', status = absent \<rparr>],
       activeQuarter = Some (example_quarters ! 1), trace = [] \<rparr>"

text \<open>Attendance rows of two students, A on the first date and B on the second.\<close>

definition example_row_A :: Report_AttendanceRecord where
  "example_row_A =
     \<lparr> att_id = ''1'', att_class_date = ''2024-01-01'', att_status = ''present'',
       att_student_id = ''A'',
       att_student = Some \<lparr> Student_id = ''A'', first_name = ''Ann'', last_name = ''Lee'' \<rparr> \<rparr>"

definition example_row_B :: Report_AttendanceRecord where
  "example_row_B =
     \<lparr> att_id = ''2'', att_class_date = ''2024-01-03'', att_status = ''absent'',
       att_student_id = ''B'',
       att_student = Some \<lparr> Student_id = ''B'', first_name = ''Bob'', last_name = ''Ray'' \<rparr> \<rparr>"

text \<open>
  More rows of A: one with an empty status on the second date, a second one on the
  first date, and a later one on the second date.
\<close>

definition example_row_A_blank :: Report_AttendanceRecord where
  "example_row_A_blank =
     \<lparr> att_id = ''3'', att_class_date = ''2024-01-03'', att_status = [],
       att_student_id = ''A'',
       att_student = Some \<lparr> Student_id = ''A'', first_name = ''Ann'', last_name = ''Lee'' \<rparr> \<rparr>"

definition example_row_A_again :: Report_AttendanceRecord where
  "example_row_A_again =
     \<lparr> att_id = ''4'', att_class_date = ''2024-01-01'', att_status = ''absent'',
       att_student_id = ''A'',
       att_student = Some \<lparr> Student_id = ''A'', first_name = ''Ann'', last_name = ''Lee'' \<rparr> \<rparr>"

definition example_row_A_later :: Report_AttendanceRecord where
  "example_row_A_later =
     \<lparr> att_id = ''5'', att_class_date = ''2024-01-03'', att_status = ''tardy'',
       att_student_id = ''A'',
       att_student = Some \<lparr> Student_id = ''A'', first_name = ''Ann'', last_name = ''Lee'' \<rparr> \<rparr>"

text \<open>
  The classroom and the quarter of the example of the specification: Mondays and
  Wednesdays from 2024-01-01 to 2024-01-14, with a break on 2024-01-08.
\<close>

definition example_classroom :: Classroom where
  "example_classroom =
     \<lparr> Classroom_id = ''c1'', Classroom_name = ''English A1'',
       class_schedule = Some \<lparr> ClassSchedule_id = ''cs1'', days = Some [''Monday'', ''Wednesday''] \<rparr>,
       students = [] \<rparr>"

definition example_quarter :: Quarter where
  "example_quarter =
     \<lparr> Quarter_id = ''q2'', Quarter_name = ''Winter'',
       start_date = days_from_civil 2024 1 1, end_date = days_from_civil 2024 1 14,
       break_dates = Some [days_from_civil 2024 1 8], active = True \<rparr>"

section \<open>Properties\<close>

subsection \<open>Role-gated routing\<close>

text \<open>
  C5. Once loading is over: without a user the guard redirects to the sign-in path;
  with a user, role pending redirects to the pending-activation path, role admin and
  the roles student, teacher and coordinator are admitted (the outlet renders whatever
  protected child was requested; the guard never looks at the path), and every other
  role value, null and non-strings included, redirects to sign-in like a missing user.
\<close>

theorem ProtectedRoute_cases:
  assumes "\<not> loading ctx"
  shows "ProtectedRoute ctx =
           (if user ctx = None then Navigate ''/''
            else if role ctx = RoleString ''pending'' then Navigate ''/pending-activation''
            else if role ctx \<in> RoleString ` {''admin'', ''student'', ''teacher'', ''coordinator''}
                 then Outlet
            else Navigate ''/'')"
  using assms
  by (cases "role ctx") (auto simp: ProtectedRoute_def allowedRoles_def)

theorem ProtectedRoute_cases_witness:
  "ProtectedRoute \<lparr> user = None, role = RoleString ''admin'', loading = False \<rparr> = Navigate ''/''
   \<and> ProtectedRoute \<lparr> user = Some \<lparr> User_id = ''u1'', User_email = ''a@b.c'', User_created_at = ''2024-01-01'' \<rparr>,
                       role = RoleString ''pending'', loading = False \<rparr> = Navigate ''/pending-activation''
   \<and> ProtectedRoute \<lparr> user = Some \<lparr> User_id = ''u1'', User_email = ''a@b.c'', User_created_at = ''2024-01-01'' \<rparr>,
                       role = RoleString ''admin'', loading = False \<rparr> = Outlet
   \<and> ProtectedRoute \<lparr> user = Some \<lparr> User_id = ''u1'', User_email = ''a@b.c'', User_created_at = ''2024-01-01'' \<rparr>,
                       role = RoleString ''teacher'', loading = False \<rparr> = Outlet
   \<and> ProtectedRoute \<lparr> user = Some \<lparr> User_id = ''u1'', User_email = ''a@b.c'', User_created_at = ''2024-01-01'' \<rparr>,
                       role = RoleNull, loading = False \<rparr> = Navigate ''/''
   \<and> ProtectedRoute \<lparr> user = Some \<lparr> User_id = ''u1'', User_email = ''a@b.c'', User_created_at = ''2024-01-01'' \<rparr>,
                       role = RoleString ''Admin'', loading = False \<rparr> = Navigate ''/''"
proof -
  let ?u = "Some \<lparr> User_id = ''u1'', User_email = ''a@b.c'', User_created_at = ''2024-01-01'' \<rparr>"
  have 1: "\<not> loading \<lparr> user = None, role = RoleString ''admin'', loading = False \<rparr>" by simp
  have 2: "\<not> loading \<lparr> user = ?u, role = RoleString ''pending'', loading = False \<rparr>" by simp
  have 3: "\<not> loading \<lparr> user = ?u, role = RoleString ''admin'', loading = False \<rparr>" by simp
  have 4: "\<not> loading \<lparr> user = ?u, role = RoleString ''teacher'', loading = False \<rparr>" by simp
  have 5: "\<not> loading \<lparr> user = ?u, role = RoleNull, loading = False \<rparr>" by simp
  have 6: "\<not> loading \<lparr> user = ?u, role = RoleString ''Admin'', loading = False \<rparr>" by simp
  show ?thesis
    using ProtectedRoute_cases [OF 1] ProtectedRoute_cases [OF 2] ProtectedRoute_cases [OF 3]
      ProtectedRoute_cases [OF 4] ProtectedRoute_cases [OF 5] ProtectedRoute_cases [OF 6]
    by simp
qed

subsection \<open>Grade cell warning threshold\<close>

text \<open>
  C7. In each of the seven skill columns, the cell of a non-null score carries the
  warning class exactly when the score is strictly below 70: 65 is flagged, 70 is not.
\<close>

theorem grade_cell_warning:
  "map (\<lambda>(header, cell). className (cell row) = ''bg-red-100 px-2 py-1 rounded'') gradingColumns
     = map (\<lambda>score. \<exists>x. score = Some x \<and> x < 70)
         [listening row, reading row, writing row, speaking row, grammar_vocab row,
          project row, conversation row]
   \<and> (className (score_cell (Some x)) = ''bg-red-100 px-2 py-1 rounded'' \<longleftrightarrow> x < 70)
   \<and> className (score_cell (Some 65)) = ''bg-red-100 px-2 py-1 rounded''
   \<and> className (score_cell (Some 70)) = ''''"
proof -
  have cell: "(className (score_cell v) = ''bg-red-100 px-2 py-1 rounded'')
                = (\<exists>x. v = Some x \<and> x < 70)" for v
    by (cases v) (simp_all add: score_cell_def isLowGrade_def)
  have no_warning: "className (score_cell (Some 70)) = ''''"
    by (simp add: score_cell_def isLowGrade_def)
  show ?thesis
    unfolding gradingColumns_def by (simp add: cell no_warning)
qed

subsection \<open>Sign-up\<close>

text \<open>
  C10. Whatever the backend answers, every row the sign-up handler inserts into the
  users table has role "pending", so the role guard sends its user to the
  pending-activation path; and a sign-up that ends with the success message has
  inserted exactly one such row, for the user the auth service returned.
\<close>

theorem signup_inserts_pending:
  assumes "onSubmit data signUpError signUpData_user dbError = (requests, st)"
  shows "(\<forall>rows r. UsersInsert rows \<in> set requests \<and> r \<in> set rows \<longrightarrow>
            users_role r = ''pending''
            \<and> ProtectedRoute \<lparr> user = Some u, role = RoleString (users_role r), loading = False \<rparr>
                = Navigate ''/pending-activation'')
         \<and> (SignUp_success st \<noteq> None \<longrightarrow>
              (\<exists>u r. signUpData_user = Some u \<and> users_id r = User_id u \<and> users_role r = ''pending''
                 \<and> requests = [AuthSignUp (email data) (password data) (name data), UsersInsert [r]]))"
  using assms
  by (auto simp: onSubmit_def Let_def ProtectedRoute_def split: option.splits)

theorem signup_inserts_pending_witness:
  "onSubmit \<lparr> name = ''Ann Lee'', email = ''ann@school.org'', password = ''secret1'',
               confirmPassword = ''secret1'' \<rparr>
     None (Some \<lparr> User_id = ''u1'', User_email = ''ann@school.org'', User_created_at = ''2024-01-01'' \<rparr>) None
   = ([AuthSignUp ''ann@school.org'' ''secret1'' ''Ann Lee'',
       UsersInsert [\<lparr> users_id = ''u1'', users_email = ''ann@school.org'', users_full_name = ''Ann Lee'',
                       users_role = ''pending'', users_created_at = ''2024-01-01'' \<rparr>]],
      \<lparr> SignUp_loading = False, SignUp_error = None,
        SignUp_success = Some ''Sign-up successful! Check your email to confirm your account.'' \<rparr>)
   \<and> users_role \<lparr> users_id = ''u1'', users_email = ''ann@school.org'', users_full_name = ''Ann Lee'',
                       users_role = ''pending'', users_created_at = ''2024-01-01'' \<rparr> = ''pending''
   \<and> ProtectedRoute \<lparr> user = Some \<lparr> User_id = ''u1'', User_email = ''ann@school.org'', User_created_at = ''2024-01-01'' \<rparr>,
                       role = RoleString ''pending'', loading = False \<rparr> = Navigate ''/pending-activation''"
proof -
  let ?data = "\<lparr> name = ''Ann Lee'', email = ''ann@school.org'', password = ''secret1'',
               confirmPassword = ''secret1'' \<rparr>"
  let ?u = "\<lparr> User_id = ''u1'', User_email = ''ann@school.org'', User_created_at = ''2024-01-01'' \<rparr>"
  let ?r = "\<lparr> users_id = ''u1'', users_email = ''ann@school.org'', users_full_name = ''Ann Lee'',
                       users_role = ''pending'', users_created_at = ''2024-01-01'' \<rparr>"
  have run: "onSubmit ?data None (Some ?u) None
     = ([AuthSignUp ''ann@school.org'' ''secret1'' ''Ann Lee'', UsersInsert [?r]],
      \<lparr> SignUp_loading = False, SignUp_error = None,
        SignUp_success = Some ''Sign-up successful! Check your email to confirm your account.'' \<rparr>)"
    by (simp add: onSubmit_def)
  from signup_inserts_pending [OF run, of ?u]
  have "users_role ?r = ''pending''
            \<and> ProtectedRoute \<lparr> user = Some ?u, role = RoleString (users_role ?r), loading = False \<rparr>
                = Navigate ''/pending-activation''"
    by simp
  with run show ?thesis by simp
qed

subsection \<open>Quarter activation\<close>

lemma update_rows_activate:
  "update_rows (\<lambda>q. Quarter_id q = i) (\<lambda>q. q\<lparr> active := True \<rparr>)
     (update_rows (\<lambda>q. Quarter_id q \<noteq> i) (\<lambda>q. q\<lparr> active := False \<rparr>) rows)
   = map (\<lambda>q. q\<lparr> active := (Quarter_id q = i) \<rparr>) rows"
  by (simp add: update_rows_def)

lemma filter_active_activated:
  "filter active (map (\<lambda>q. q\<lparr> active := (Quarter_id q = i) \<rparr>) rows)
   = filter (\<lambda>q. Quarter_id q = i) (map (\<lambda>q. q\<lparr> active := (Quarter_id q = i) \<rparr>) rows)"
  by (induction rows) simp_all

lemma activated_row:
  assumes "q \<in> set (map (\<lambda>q. q\<lparr> active := (Quarter_id q = i) \<rparr>) rows)"
  shows "active q = (Quarter_id q = i)"
proof -
  from assms obtain x where q: "q = x\<lparr> active := (Quarter_id x = i) \<rparr>"
    unfolding set_map by blast
  show ?thesis unfolding q by simp
qed

text \<open>
  C2. When activating a quarter completes successfully, the quarters table holds
  exactly one row with the active flag, it is the row of the activated quarter (the
  one the mutation returns and the store of the active quarter now holds), and no
  row was added or removed, whatever the active flags were before.
\<close>

theorem activate_exactly_one_active:
  assumes "handleActivate deactivateError activateError quarterId w = (Inr q, w')"
  shows "filter active (quarters w') = [q] \<and> Quarter_id q = quarterId \<and> active q
         \<and> map Quarter_id (quarters w') = map Quarter_id (quarters w)
         \<and> activeQuarter w' = Some q"
proof -
  let ?rows = "map (\<lambda>q. q\<lparr> active := (Quarter_id q = quarterId) \<rparr>) (quarters w)"
  from assms have single: "filter (\<lambda>q. Quarter_id q = quarterId) ?rows = [q]"
    and table: "quarters w' = ?rows" and store: "activeQuarter w' = Some q"
    by (auto simp: handleActivate_def useMutation_def handleActivate_mutationFn_def Let_def
          log_def handleActivate_onSuccess_def update_rows_activate
          split: option.splits list.splits)
  from single have "q \<in> set (filter (\<lambda>q. Quarter_id q = quarterId) ?rows)" by simp
  then have mem: "q \<in> set ?rows" and qid: "Quarter_id q = quarterId"
    by (simp_all only: set_filter mem_Collect_eq)
  from activated_row [OF mem] qid have "active q" by simp
  note qid this
  moreover have "filter active (quarters w') = [q]"
    using single table by (simp add: filter_active_activated)
  moreover have "map Quarter_id (quarters w') = map Quarter_id (quarters w)"
    using table by simp
  ultimately show ?thesis using store by simp
qed

theorem activate_exactly_one_active_witness:
  "fst (handleActivate None None ''q2'' example_world) = Inr ((example_quarters ! 1)\<lparr> active := True \<rparr>)
   \<and> map active (quarters (snd (handleActivate None None ''q2'' example_world))) = [False, True, False]
   \<and> filter active (quarters (snd (handleActivate None None ''q2'' example_world)))
       = [(example_quarters ! 1)\<lparr> active := True \<rparr>]"
proof -
  let ?run = "handleActivate None None ''q2'' example_world"
  have result: "fst ?run = Inr ((example_quarters ! 1)\<lparr> active := True \<rparr>)"
    and flags: "map active (quarters (snd ?run)) = [False, True, False]"
    by (simp_all add: handleActivate_def useMutation_def handleActivate_mutationFn_def
          handleActivate_onSuccess_def log_def update_rows_def example_world_def example_quarters_def)
  have run: "?run = (Inr ((example_quarters ! 1)\<lparr> active := True \<rparr>), snd ?run)"
    by (simp add: prod_eq_iff result)
  from activate_exactly_one_active [OF run]
  have one: "filter active (quarters (snd ?run)) = [(example_quarters ! 1)\<lparr> active := True \<rparr>]"
    by (rule conjunct1)
  from result flags one show ?thesis by (intro conjI)
qed

text \<open>
  Activation does complete when the store carries out both updates and the table has
  exactly one row with the given id.
\<close>

lemma handleActivate_completes:
  assumes "filter (\<lambda>x. Quarter_id x = quarterId) (quarters w) = [q0]"
  shows "\<exists>w'. handleActivate None None quarterId w = (Inr (q0\<lparr> active := True \<rparr>), w')"
proof -
  let ?rows = "map (\<lambda>q. q\<lparr> active := (Quarter_id q = quarterId) \<rparr>) (quarters w)"
  have "filter (\<lambda>x. Quarter_id x = quarterId) ?rows
          = map (\<lambda>q. q\<lparr> active := (Quarter_id q = quarterId) \<rparr>)
              (filter (\<lambda>x. Quarter_id x = quarterId) (quarters w))"
    by (simp add: filter_map comp_def)
  also have "\<dots> = [q0\<lparr> active := (Quarter_id q0 = quarterId) \<rparr>]"
    by (simp add: assms)
  finally have single: "filter (\<lambda>x. Quarter_id x = quarterId) ?rows
          = [q0\<lparr> active := (Quarter_id q0 = quarterId) \<rparr>]" .
  have "q0 \<in> set (filter (\<lambda>x. Quarter_id x = quarterId) (quarters w))"
    by (simp add: assms)
  then have "Quarter_id q0 = quarterId" by simp
  with single have "filter (\<lambda>x. Quarter_id x = quarterId) ?rows = [q0\<lparr> active := True \<rparr>]"
    by simp
  then show ?thesis
    by (simp add: handleActivate_def useMutation_def handleActivate_mutationFn_def Let_def
          log_def update_rows_activate)
qed

lemma deactivated_others:
  assumes "q \<in> set (map (\<lambda>q. if Quarter_id q \<noteq> i then q\<lparr> active := False \<rparr> else q) rows)"
    and "Quarter_id q \<noteq> i"
  shows "\<not> active q"
proof -
  from assms(1) obtain x where
    q: "q = (if Quarter_id x \<noteq> i then x\<lparr> active := False \<rparr> else x)"
    unfolding set_map by blast
  show ?thesis
  proof (cases "Quarter_id x = i")
    case True
    with q have "q = x" by simp
    with True assms(2) show ?thesis by simp
  next
    case False
    with q have "q = x\<lparr> active := False \<rparr>" by simp
    then show ?thesis by simp
  qed
qed

lemma deactivated_none:
  assumes "\<forall>q \<in> set rows. Quarter_id q = i \<longrightarrow> \<not> active q"
    and "q \<in> set (map (\<lambda>q. if Quarter_id q \<noteq> i then q\<lparr> active := False \<rparr> else q) rows)"
  shows "\<not> active q"
proof -
  from assms(2) obtain x where x: "x \<in> set rows"
    and q: "q = (if Quarter_id x \<noteq> i then x\<lparr> active := False \<rparr> else x)"
    unfolding set_map by blast
  show ?thesis
  proof (cases "Quarter_id x = i")
    case True
    with q have "q = x" by simp
    with True assms(1) x show ?thesis by blast
  next
    case False
    with q have "q = x\<lparr> active := False \<rparr>" by simp
    then show ?thesis by simp
  qed
qed

text \<open>
  C9. When the first update goes through and the second one reports an error, the
  mutation is rejected with that error, the table is left with every other quarter
  deactivated (the old flags are not put back) and the store of the active quarter is
  untouched; if the quarter to activate was not active before, no quarter is active
  afterwards.
\<close>

theorem activate_not_atomic:
  assumes "handleActivate None (Some message) quarterId w = (res, w')"
  shows "res = Inl message
         \<and> quarters w' = map (\<lambda>q. if Quarter_id q \<noteq> quarterId then q\<lparr> active := False \<rparr> else q) (quarters w)
         \<and> activeQuarter w' = activeQuarter w
         \<and> (\<forall>q \<in> set (quarters w'). Quarter_id q \<noteq> quarterId \<longrightarrow> \<not> active q)
         \<and> ((\<forall>q \<in> set (quarters w). Quarter_id q = quarterId \<longrightarrow> \<not> active q)
              \<longrightarrow> (\<forall>q \<in> set (quarters w'). \<not> active q))"
proof -
  let ?rows = "map (\<lambda>q. if Quarter_id q \<noteq> quarterId then q\<lparr> active := False \<rparr> else q) (quarters w)"
  from assms have res: "res = Inl message" and table: "quarters w' = ?rows"
    and store: "activeQuarter w' = activeQuarter w"
    by (auto simp: handleActivate_def useMutation_def handleActivate_mutationFn_def Let_def
          log_def update_rows_def)
  have others: "\<forall>q \<in> set (quarters w'). Quarter_id q \<noteq> quarterId \<longrightarrow> \<not> active q"
    unfolding table using deactivated_others by blast
  have none: "(\<forall>q \<in> set (quarters w). Quarter_id q = quarterId \<longrightarrow> \<not> active q)
              \<longrightarrow> (\<forall>q \<in> set (quarters w'). \<not> active q)"
    unfolding table using deactivated_none by blast
  from res table store others none show ?thesis by blast
qed

theorem activate_not_atomic_witness:
  "fst (handleActivate None (Some ''network error'') ''q2'' example_world) = Inl ''network error''
   \<and> map active (quarters example_world) = [True, False, True]
   \<and> filter active (quarters (snd (handleActivate None (Some ''network error'') ''q2'' example_world)))
       = []"
proof -
  let ?run = "handleActivate None (Some ''network error'') ''q2'' example_world"
  have run: "?run = (fst ?run, snd ?run)" by simp
  have before: "map active (quarters example_world) = [True, False, True]"
    by (simp add: example_world_def example_quarters_def)
  have inactive: "\<forall>q \<in> set (quarters example_world). Quarter_id q = ''q2'' \<longrightarrow> \<not> active q"
    by (simp add: example_world_def example_quarters_def)
  from activate_not_atomic [OF run] inactive
  have res: "fst ?run = Inl ''network error''"
    and none: "\<forall>q \<in> set (quarters (snd ?run)). \<not> active q"
    by blast+
  from none have "filter active (quarters (snd ?run)) = []"
    by (simp only: filter_empty_conv)
  with res before show ?thesis by (intro conjI)
qed

subsection \<open>Attendance save\<close>

lemma upsert_Nil: "upsert key ign [] rows = rows"
  by (simp add: upsert_def)

lemma upsert_Cons: "upsert key ign (r # rs) rows = upsert key ign rs (upsert_row key ign r rows)"
  by (simp add: upsert_def)

lemma upsert_snoc: "upsert key ign (rs @ [r]) rows = upsert_row key ign r (upsert key ign rs rows)"
  by (simp add: upsert_def)

lemma keys_upsert_row: "key ` set (upsert_row key ign r rows) = insert (key r) (key ` set rows)"
  by (induction rows) auto

lemma distinct_upsert_row:
  "distinct (map key rows) \<Longrightarrow> distinct (map key (upsert_row key ign r rows))"
proof (induction rows)
  case Nil
  then show ?case by simp
next
  case (Cons x xs)
  have "key ` set (upsert_row key ign r xs) = insert (key r) (key ` set xs)"
    by (rule keys_upsert_row)
  with Cons show ?case by auto
qed

lemma distinct_upsert:
  "distinct (map key rows) \<Longrightarrow> distinct (map key (upsert key ign rs rows))"
  by (induction rs arbitrary: rows) (simp_all add: upsert_Nil upsert_Cons distinct_upsert_row)

lemma filter_upsert_row_same:
  "distinct (map key rows) \<Longrightarrow> filter (\<lambda>x. key x = key r) (upsert_row key False r rows) = [r]"
proof (induction rows)
  case Nil
  then show ?case by simp
next
  case (Cons x xs)
  show ?case
  proof (cases "key x = key r")
    case True
    with Cons.prems have "key r \<notin> key ` set xs" by simp
    then have "\<forall>y \<in> set xs. key y \<noteq> key r" by (metis imageI)
    then have "filter (\<lambda>x. key x = key r) xs = []" by (simp add: filter_empty_conv)
    with True show ?thesis by simp
  next
    case False
    with Cons show ?thesis by simp
  qed
qed

lemma filter_upsert_row_other:
  "key r \<noteq> k \<Longrightarrow> filter (\<lambda>x. key x = k) (upsert_row key ign r rows) = filter (\<lambda>x. key x = k) rows"
  by (induction rows) auto

lemma filter_upsert:
  assumes "distinct (map key rows)" and "r \<in> set rs"
    and "\<forall>r' \<in> set rs. key r' = key r \<longrightarrow> r' = r"
  shows "filter (\<lambda>x. key x = key r) (upsert key False rs rows) = [r]"
  using assms(2,3)
proof (induction rs rule: rev_induct)
  case Nil
  then show ?case by simp
next
  case (snoc y ys)
  have d: "distinct (map key (upsert key False ys rows))"
    using assms(1) by (rule distinct_upsert)
  show ?case
  proof (cases "key y = key r")
    case True
    with snoc.prems have "y = r" by simp
    then show ?thesis using d by (simp add: upsert_snoc filter_upsert_row_same)
  next
    case False
    with snoc.prems have "r \<in> set ys" by auto
    moreover from snoc.prems have "\<forall>r' \<in> set ys. key r' = key r \<longrightarrow> r' = r" by simp
    ultimately have "filter (\<lambda>x. key x = key r) (upsert key False ys rows) = [r]"
      by (rule snoc.IH)
    with False show ?thesis by (simp add: upsert_snoc filter_upsert_row_other)
  qed
qed

lemma upsert_row_present:
  "distinct (map key rows) \<Longrightarrow> r \<in> set rows \<Longrightarrow> upsert_row key False r rows = rows"
proof (induction rows)
  case Nil
  then show ?case by simp
next
  case (Cons x xs)
  show ?case
  proof (cases "key x = key r")
    case True
    with Cons.prems have "r = x" by (auto simp: image_iff)
    with True show ?thesis by simp
  next
    case False
    with Cons show ?thesis by auto
  qed
qed

lemma upsert_present:
  "distinct (map key rows) \<Longrightarrow> set rs \<subseteq> set rows \<Longrightarrow> upsert key False rs rows = rows"
  by (induction rs) (simp_all add: upsert_Nil upsert_Cons upsert_row_present)

text \<open>The entries of the status map keep distinct keys when a status is set.\<close>

lemma handleStatusChange_keys:
  "distinct (map fst (attendanceRecords page))
     \<Longrightarrow> distinct (map fst (attendanceRecords (handleStatusChange studentId st page)))"
  by (simp add: handleStatusChange_def distinct_update)

lemma saveAttendanceMutation_resolved:
  assumes "activeQuarter w = Some q" and "Quarter_id q \<noteq> []"
  shows "saveAttendanceMutation None page w =
           (Inr (),
            w\<lparr> attendance := upsert onConflict False (records page q) (attendance w),
               trace := trace w @ [Call ''attendance.upsert'', Settled None,
                                   InvalidateQueries (existingAttendance_queryKey page w)] \<rparr>)"
  using assms
  by (simp add: saveAttendanceMutation_def useMutation_def saveAttendance_mutationFn_def
        saveAttendance_onSuccess_def log_def existingAttendance_queryKey_def)

lemma records_same_key:
  assumes "distinct (map fst (attendanceRecords page))"
    and "r \<in> set (records page q)" and "r' \<in> set (records page q)"
    and "onConflict r' = onConflict r"
  shows "r' = r"
proof -
  from assms(2) obtain s st where e: "(s, st) \<in> set (attendanceRecords page)"
    and r: "r = \<lparr> classroom_id = selectedClassroom page, student_id = s,
                   quarter_id = Quarter_id q, class_date = selectedDate page, status = st \<rparr>"
    unfolding records_def by auto
  from assms(3) obtain s' st' where e': "(s', st') \<in> set (attendanceRecords page)"
    and r': "r' = \<lparr> classroom_id = selectedClassroom page, student_id = s',
                   quarter_id = Quarter_id q, class_date = selectedDate page, status = st' \<rparr>"
    unfolding records_def by auto
  from assms(4) have "s' = s" unfolding r r' by (simp add: onConflict_def)
  with assms(1) e e' have "st' = st" by (metis eq_key_imp_eq_value)
  with \<open>s' = s\<close> show ?thesis unfolding r r' by simp
qed

text \<open>
  C4. Over a store that keeps the composite key (classroom, student, class date,
  quarter) unique, as the conflict target of the upsert requires, saving the same page
  twice succeeds both times and leaves, for every student the page holds a status
  for, exactly one stored record under that key, carrying that status: the second save
  changes nothing in the table.
\<close>

theorem save_twice_one_record:
  assumes uniq: "distinct (map onConflict (attendance w))"
    and keys: "distinct (map fst (attendanceRecords page))"
    and quarter: "activeQuarter w = Some q" "Quarter_id q \<noteq> []"
    and entry: "(studentId, st) \<in> set (attendanceRecords page)"
  shows "\<exists>w1 w2. saveAttendanceMutation None page w = (Inr (), w1)
           \<and> saveAttendanceMutation None page w1 = (Inr (), w2)
           \<and> filter (\<lambda>r. onConflict r
                            = (selectedClassroom page, studentId, selectedDate page, Quarter_id q))
                 (attendance w2)
               = [\<lparr> classroom_id = selectedClassroom page, student_id = studentId,
                     quarter_id = Quarter_id q, class_date = selectedDate page, status = st \<rparr>]
           \<and> attendance w2 = attendance w1
           \<and> distinct (map onConflict (attendance w2))"
proof -
  let ?rs = "records page q"
  let ?t1 = "upsert onConflict False ?rs (attendance w)"
  let ?r = "\<lparr> classroom_id = selectedClassroom page, student_id = studentId,
               quarter_id = Quarter_id q, class_date = selectedDate page, status = st \<rparr>"
  define w1 where "w1 = w\<lparr> attendance := ?t1,
      trace := trace w @ [Call ''attendance.upsert'', Settled None,
                          InvalidateQueries (existingAttendance_queryKey page w)] \<rparr>"
  define w2 where "w2 = w1\<lparr> attendance := upsert onConflict False ?rs (attendance w1),
      trace := trace w1 @ [Call ''attendance.upsert'', Settled None,
                           InvalidateQueries (existingAttendance_queryKey page w1)] \<rparr>"
  have first: "saveAttendanceMutation None page w = (Inr (), w1)"
    unfolding w1_def using quarter by (rule saveAttendanceMutation_resolved)
  have "activeQuarter w1 = Some q" unfolding w1_def using quarter(1) by simp
  then have second: "saveAttendanceMutation None page w1 = (Inr (), w2)"
    unfolding w2_def using quarter(2) by (rule saveAttendanceMutation_resolved)
  have t1: "attendance w1 = ?t1" unfolding w1_def by simp
  have d1: "distinct (map onConflict ?t1)" using uniq by (rule distinct_upsert)
  have stored: "filter (\<lambda>x. onConflict x = onConflict r) ?t1 = [r]" if "r \<in> set ?rs" for r
  proof (rule filter_upsert [OF uniq that])
    show "\<forall>r' \<in> set ?rs. onConflict r' = onConflict r \<longrightarrow> r' = r"
      using records_same_key [OF keys that] by blast
  qed
  have "set ?rs \<subseteq> set ?t1"
  proof
    fix r assume "r \<in> set ?rs"
    then have "filter (\<lambda>x. onConflict x = onConflict r) ?t1 = [r]" by (rule stored)
    then have "r \<in> set (filter (\<lambda>x. onConflict x = onConflict r) ?t1)" by simp
    then show "r \<in> set ?t1" by simp
  qed
  with d1 have same: "upsert onConflict False ?rs ?t1 = ?t1" by (rule upsert_present)
  have t2: "attendance w2 = ?t1" unfolding w2_def by (simp add: t1 same)
  from entry have "?r \<in> set ?rs" unfolding records_def by force
  then have "filter (\<lambda>x. onConflict x = onConflict ?r) ?t1 = [?r]" by (rule stored)
  then have one: "filter (\<lambda>r. onConflict r
                            = (selectedClassroom page, studentId, selectedDate page, Quarter_id q))
                 (attendance w2) = [?r]"
    unfolding t2 by (simp add: onConflict_def)
  from first second one t1 t2 d1 show ?thesis by auto
qed

theorem save_twice_one_record_witness:
  "distinct (map onConflict (attendance example_attendance_world))
   \<and> distinct (map fst (attendanceRecords example_page))
   \<and> activeQuarter example_attendance_world = Some (example_quarters ! 1)
   \<and> Quarter_id (example_quarters ! 1) \<noteq> []
   \<and> (''s1'', present) \<in> set (attendanceRecords example_page)
   \<and> (\<exists>w1 w2. saveAttendanceMutation None example_page example_attendance_world = (Inr (), w1)
           \<and> saveAttendanceMutation None example_page w1 = (Inr (), w2)
           \<and> filter (\<lambda>r. onConflict r = (''c1'', ''s1'', ''2024-01-03'', ''q2'')) (attendance w2)
               = [\<lparr> classroom_id = ''c1'', student_id = ''s1'', quarter_id = ''q2'',
                     class_date = ''2024-01-03'', status = present \<rparr>]
           \<and> attendance w2 = attendance w1
           \<and> distinct (map onConflict (attendance w2)))"
proof -
  have uniq: "distinct (map onConflict (attendance example_attendance_world))"
    by (simp add: example_attendance_world_def)
  have keys: "distinct (map fst (attendanceRecords example_page))"
    by (simp add: example_page_def)
  have quarter: "activeQuarter example_attendance_world = Some (example_quarters ! 1)"
    by (simp add: example_attendance_world_def)
  have ident: "Quarter_id (example_quarters ! 1) \<noteq> []"
    by (simp add: example_quarters_def)
  have entry: "(''s1'', present) \<in> set (attendanceRecords example_page)"
    by (simp add: example_page_def)
  have sel: "selectedClassroom example_page = ''c1''" "selectedDate example_page = ''2024-01-03''"
    "Quarter_id (example_quarters ! 1) = ''q2''"
    by (simp_all add: example_page_def example_quarters_def)
  from save_twice_one_record [OF uniq keys quarter ident entry]
  have "\<exists>w1 w2. saveAttendanceMutation None example_page example_attendance_world = (Inr (), w1)
           \<and> saveAttendanceMutation None example_page w1 = (Inr (), w2)
           \<and> filter (\<lambda>r. onConflict r = (''c1'', ''s1'', ''2024-01-03'', ''q2'')) (attendance w2)
               = [\<lparr> classroom_id = ''c1'', student_id = ''s1'', quarter_id = ''q2'',
                     class_date = ''2024-01-03'', status = present \<rparr>]
           \<and> attendance w2 = attendance w1
           \<and> distinct (map onConflict (attendance w2))"
    unfolding sel .
  with uniq keys quarter ident entry show ?thesis by (intro conjI)
qed

text \<open>
  C8. Whatever the store answers, a save appends to the trace an invalidation only in
  the one shape "upsert called, upsert resolved without error, invalidation", and the
  key invalidated is the key of the cached read for this classroom, date and quarter;
  when the upsert reports an error (or no quarter is active) no invalidation is issued,
  and when the save succeeds the invalidation is issued.
\<close>

theorem invalidation_only_after_successful_upsert:
  assumes "saveAttendanceMutation upsertError page w = (res, w')"
  shows "\<exists>es. trace w' = trace w @ es
           \<and> (\<forall>k. InvalidateQueries k \<in> set es \<longrightarrow>
                  upsertError = None \<and> res = Inr () \<and> k = existingAttendance_queryKey page w
                  \<and> es = [Call ''attendance.upsert'', Settled None, InvalidateQueries k])
           \<and> (upsertError \<noteq> None \<longrightarrow> (\<forall>k. InvalidateQueries k \<notin> set es))
           \<and> (res = Inr () \<longrightarrow> InvalidateQueries (existingAttendance_queryKey page w) \<in> set es)"
proof (cases "activeQuarter w")
  case None
  with assms have "res = Inl ''No active quarter selected''" and "w' = w"
    by (simp_all add: saveAttendanceMutation_def useMutation_def saveAttendance_mutationFn_def)
  then have "trace w' = trace w @ []" by simp
  with \<open>res = Inl _\<close> show ?thesis by (intro exI [of _ "[]"]) simp
next
  case (Some q)
  show ?thesis
  proof (cases "Quarter_id q = []")
    case True
    with Some assms have "res = Inl ''No active quarter selected''" and "w' = w"
      by (simp_all add: saveAttendanceMutation_def useMutation_def saveAttendance_mutationFn_def)
    then have "trace w' = trace w @ []" by simp
    with \<open>res = Inl _\<close> show ?thesis by (intro exI [of _ "[]"]) simp
  next
    case False
    show ?thesis
    proof (cases upsertError)
      case None
      from saveAttendanceMutation_resolved [OF Some False, of page] assms None
      have "res = Inr ()"
        and "trace w' = trace w @ [Call ''attendance.upsert'', Settled None,
                                   InvalidateQueries (existingAttendance_queryKey page w)]"
        by auto
      with None show ?thesis
        by (intro exI [of _ "[Call ''attendance.upsert'', Settled None,
                                   InvalidateQueries (existingAttendance_queryKey page w)]"]) simp
    next
      case (Some message)
      with \<open>activeQuarter w = Some q\<close> False assms
      have "res = Inl message"
        and "trace w' = trace w @ [Call ''attendance.upsert'', Settled (Some message)]"
        by (auto simp: saveAttendanceMutation_def useMutation_def saveAttendance_mutationFn_def
              log_def)
      with Some show ?thesis
        by (intro exI [of _ "[Call ''attendance.upsert'', Settled (Some message)]"]) simp
    qed
  qed
qed

theorem invalidation_only_after_successful_upsert_witness:
  "trace (snd (saveAttendanceMutation None example_page example_attendance_world))
     = [Call ''attendance.upsert'', Settled None,
        InvalidateQueries [Some ''attendance'', Some ''c1'', Some ''2024-01-03'', Some ''q2'']]
   \<and> trace (snd (saveAttendanceMutation (Some ''timeout'') example_page example_attendance_world))
     = [Call ''attendance.upsert'', Settled (Some ''timeout'')]
   \<and> (\<exists>es. trace (snd (saveAttendanceMutation (Some ''timeout'') example_page example_attendance_world))
              = trace example_attendance_world @ es
            \<and> (\<forall>k. InvalidateQueries k \<notin> set es))"
proof -
  let ?ok = "saveAttendanceMutation None example_page example_attendance_world"
  let ?failed = "saveAttendanceMutation (Some ''timeout'') example_page example_attendance_world"
  have ok: "trace (snd ?ok)
     = [Call ''attendance.upsert'', Settled None,
        InvalidateQueries [Some ''attendance'', Some ''c1'', Some ''2024-01-03'', Some ''q2'']]"
    by (simp add: saveAttendanceMutation_def useMutation_def saveAttendance_mutationFn_def
          saveAttendance_onSuccess_def log_def example_attendance_world_def example_page_def
          example_quarters_def)
  have failed: "trace (snd ?failed) = [Call ''attendance.upsert'', Settled (Some ''timeout'')]"
    by (simp add: saveAttendanceMutation_def useMutation_def saveAttendance_mutationFn_def
          saveAttendance_onSuccess_def log_def example_attendance_world_def example_page_def
          example_quarters_def)
  have run: "?failed = (fst ?failed, snd ?failed)" by simp
  from invalidation_only_after_successful_upsert [OF run]
  have "\<exists>es. trace (snd ?failed) = trace example_attendance_world @ es
            \<and> (\<forall>k. InvalidateQueries k \<notin> set es)"
    by blast
  with ok failed show ?thesis by (intro conjI)
qed

subsection \<open>Attendance status display\<close>

lemma char_of_eq_nat:
  assumes "k < 256"
  shows "char_of (k::nat) = d \<longleftrightarrow> k = of_char d"
proof -
  have "take_bit 8 k = k" using assms by (simp add: take_bit_nat_eq_self)
  then show ?thesis by (simp add: char_of_eq_iff)
qed

lemma eq_char_of_iff: "d = char_of (k::nat) \<longleftrightarrow> take_bit 8 k = of_char d"
  using char_of_eq_iff [of k d] by auto

lemma lower_char_iff:
  assumes "97 \<le> (of_char c :: nat)" and "(of_char c :: nat) \<le> 122"
  shows "toLowerCase_char d = c \<longleftrightarrow> d = c \<or> d = toUpperCase_char c"
proof -
  define m :: nat where "m = of_char c"
  define n :: nat where "n = of_char d"
  have m: "97 \<le> m" "m \<le> 122" using assms by (simp_all add: m_def)
  have up: "toUpperCase_char c = char_of (m - 32)"
    using m by (simp add: toUpperCase_char_def m_def)
  have d_up: "d = char_of (m - 32) \<longleftrightarrow> n = m - 32"
    using char_of_eq_nat [of "m - 32" d] m unfolding n_def by auto
  have d_c: "d = c \<longleftrightarrow> n = m"
    unfolding n_def m_def by auto
  show ?thesis
  proof (cases "65 \<le> n \<and> n \<le> 90")
    case True
    then have low: "toLowerCase_char d = char_of (n + 32)"
      by (simp add: toLowerCase_char_def n_def)
    have "char_of (n + 32) = c \<longleftrightarrow> n + 32 = m"
      using char_of_eq_nat [of "n + 32" c] True unfolding m_def by auto
    with True m show ?thesis unfolding low up d_up d_c by arith
  next
    case False
    then have low: "toLowerCase_char d = d"
      by (auto simp: toLowerCase_char_def n_def Let_def)
    from False m show ?thesis unfolding low up d_up d_c by arith
  qed
qed


lemma casing_of_iff:
  assumes "\<forall>c \<in> set word. 97 \<le> (of_char c :: nat) \<and> (of_char c :: nat) \<le> 122"
  shows "casing_of word s \<longleftrightarrow> toLowerCase s = word"
  using assms
proof (induction word arbitrary: s)
  case Nil
  then show ?case by (simp add: casing_of_def toLowerCase_def)
next
  case (Cons c cs)
  show ?case
  proof (cases s)
    case Nil
    then show ?thesis by (simp add: casing_of_def toLowerCase_def)
  next
    case (Cons d ds)
    from Cons.prems have c: "97 \<le> (of_char c :: nat)" "(of_char c :: nat) \<le> 122"
      and cs: "\<forall>c \<in> set cs. 97 \<le> (of_char c :: nat) \<and> (of_char c :: nat) \<le> 122"
      by simp_all
    from Cons.IH [OF cs, of ds] have "casing_of cs ds \<longleftrightarrow> toLowerCase ds = cs" .
    moreover have "casing_of (c # cs) (d # ds) \<longleftrightarrow> (d = c \<or> d = toUpperCase_char c) \<and> casing_of cs ds"
      by (simp add: casing_of_def)
    moreover have "toLowerCase (d # ds) = c # cs \<longleftrightarrow> toLowerCase_char d = c \<and> toLowerCase ds = cs"
      by (simp add: toLowerCase_def)
    ultimately show ?thesis
      using lower_char_iff [OF c, of d] Cons by simp
  qed
qed

lemma lower_words:
  "\<forall>c \<in> set ''present''. 97 \<le> (of_char c :: nat) \<and> (of_char c :: nat) \<le> 122"
  "\<forall>c \<in> set ''absent''. 97 \<le> (of_char c :: nat) \<and> (of_char c :: nat) \<le> 122"
  "\<forall>c \<in> set ''tardy''. 97 \<le> (of_char c :: nat) \<and> (of_char c :: nat) \<le> 122"
  "\<forall>c \<in> set ''late''. 97 \<le> (of_char c :: nat) \<and> (of_char c :: nat) \<le> 122"
  by simp_all

text \<open>
  C6, as the specification words it, fails on the status "late": the specification
  gives any value other than a casing of present, absent or tardy its first character
  in upper case with the neutral class, the cell gives "late" the letter T with the
  cautionary class.
\<close>

theorem attendance_cell_late_counterexample:
  "attendance_cell (Some ''late'') = (''T'', ''bg-yellow-100 text-yellow-800'')
   \<and> spec_attendance_cell (Some ''late'') = (''L'', ''bg-blue-100 text-blue-800'')
   \<and> attendance_cell (Some ''late'') \<noteq> spec_attendance_cell (Some ''late'')"
  by (simp add: attendance_cell_def toLowerCase_def toLowerCase_char_def
        spec_attendance_cell_def casing_of_def toUpperCase_char_def char_of_eq_iff)

text \<open>
  C6, amended. For a status of ASCII characters (or a missing one), the cell shows P
  with the positive class for any casing of "present", A with the negative class for
  any casing of "absent", T with the cautionary class for any casing of "tardy" or of
  "late", the first character in upper case with the neutral class for any other
  non-empty value that is not exactly the sentinel "No Record", and the dash with the
  muted class for the sentinel, the empty string and a missing status.
\<close>

theorem attendance_cell_display:
  assumes "case st of None \<Rightarrow> True | Some s \<Rightarrow> isASCII s"
  shows "attendance_cell st =
     (case st of
        None \<Rightarrow> (''-'', ''bg-gray-100 text-gray-800'')
      | Some s \<Rightarrow>
          if casing_of ''present'' s then (''P'', ''bg-green-100 text-green-800'')
          else if casing_of ''absent'' s then (''A'', ''bg-red-100 text-red-800'')
          else if casing_of ''tardy'' s \<or> casing_of ''late'' s
            then (''T'', ''bg-yellow-100 text-yellow-800'')
          else if s \<noteq> [] \<and> s \<noteq> ''No Record''
            then ([toUpperCase_char (hd s)], ''bg-blue-100 text-blue-800'')
          else (''-'', ''bg-gray-100 text-gray-800''))"
proof (cases st)
  case None
  then show ?thesis by (simp add: attendance_cell_def)
next
  case (Some s)
  have first: "toUpperCase (charAt s 0) = [toUpperCase_char (hd s)]" if "s \<noteq> []"
    using that by (cases s) (simp_all add: toUpperCase_def charAt_def)
  show ?thesis
    unfolding Some attendance_cell_def casing_of_iff [OF lower_words(1)]
      casing_of_iff [OF lower_words(2)] casing_of_iff [OF lower_words(3)]
      casing_of_iff [OF lower_words(4)]
    by (auto simp: first Let_def)
qed

theorem attendance_cell_display_witness:
  "isASCII ''PRESENT'' \<and> isASCII ''Absent'' \<and> isASCII ''tardy'' \<and> isASCII ''Late''
   \<and> isASCII ''excused'' \<and> isASCII ''no record'' \<and> isASCII ''No Record'' \<and> isASCII []
   \<and> attendance_cell (Some ''PRESENT'') = (''P'', ''bg-green-100 text-green-800'')
   \<and> attendance_cell (Some ''Absent'') = (''A'', ''bg-red-100 text-red-800'')
   \<and> attendance_cell (Some ''tardy'') = (''T'', ''bg-yellow-100 text-yellow-800'')
   \<and> attendance_cell (Some ''Late'') = (''T'', ''bg-yellow-100 text-yellow-800'')
   \<and> attendance_cell (Some ''excused'') = (''E'', ''bg-blue-100 text-blue-800'')
   \<and> attendance_cell (Some ''no record'') = (''N'', ''bg-blue-100 text-blue-800'')
   \<and> attendance_cell (Some ''No Record'') = (''-'', ''bg-gray-100 text-gray-800'')
   \<and> attendance_cell (Some []) = (''-'', ''bg-gray-100 text-gray-800'')
   \<and> attendance_cell None = (''-'', ''bg-gray-100 text-gray-800'')"
proof -
  have ascii: "isASCII ''PRESENT''" "isASCII ''Absent''" "isASCII ''tardy''" "isASCII ''Late''"
    "isASCII ''excused''" "isASCII ''no record''" "isASCII ''No Record''" "isASCII []"
    by (simp_all add: isASCII_def)
  have h: "case Some s of None \<Rightarrow> True | Some s \<Rightarrow> isASCII s" if "isASCII s" for s
    using that by simp
  have none: "case (None :: string option) of None \<Rightarrow> True | Some s \<Rightarrow> isASCII s"
    by simp
  have cells: "attendance_cell (Some ''PRESENT'') = (''P'', ''bg-green-100 text-green-800'')"
    "attendance_cell (Some ''Absent'') = (''A'', ''bg-red-100 text-red-800'')"
    "attendance_cell (Some ''tardy'') = (''T'', ''bg-yellow-100 text-yellow-800'')"
    "attendance_cell (Some ''Late'') = (''T'', ''bg-yellow-100 text-yellow-800'')"
    "attendance_cell (Some ''excused'') = (''E'', ''bg-blue-100 text-blue-800'')"
    "attendance_cell (Some ''no record'') = (''N'', ''bg-blue-100 text-blue-800'')"
    "attendance_cell (Some ''No Record'') = (''-'', ''bg-gray-100 text-gray-800'')"
    "attendance_cell (Some []) = (''-'', ''bg-gray-100 text-gray-800'')"
    "attendance_cell None = (''-'', ''bg-gray-100 text-gray-800'')"
    using attendance_cell_display [OF h [OF ascii(1)]] attendance_cell_display [OF h [OF ascii(2)]]
      attendance_cell_display [OF h [OF ascii(3)]] attendance_cell_display [OF h [OF ascii(4)]]
      attendance_cell_display [OF h [OF ascii(5)]] attendance_cell_display [OF h [OF ascii(6)]]
      attendance_cell_display [OF h [OF ascii(7)]] attendance_cell_display [OF h [OF ascii(8)]]
      attendance_cell_display [OF none]
    by (simp_all add: casing_of_def toUpperCase_char_def char_of_eq_iff eq_char_of_iff)
  from ascii cells show ?thesis by (intro conjI)
qed

subsection \<open>Attendance pivot\<close>

lemma set_Set_values: "set (Set_values xs) = set xs"
  by (induction xs) auto

lemma distinct_Set_values: "distinct (Set_values xs)"
  by (induction xs) (auto simp: set_Set_values)

lemma uniqueDates_props:
  "set (uniqueDates rows) = att_class_date ` set rows"
  "sorted (uniqueDates rows)" "distinct (uniqueDates rows)"
  by (simp_all add: uniqueDates_def set_Set_values distinct_Set_values)

lemma studentsMap_keys_aux:
  "fst ` set (foldl (\<lambda>m record. case att_student record of
                          None \<Rightarrow> m
                        | Some s \<Rightarrow> AList.update (att_student_id record) s m) m0 rows)
   = fst ` set m0 \<union> att_student_id ` {r \<in> set rows. att_student r \<noteq> None}"
proof (induction rows arbitrary: m0)
  case Nil
  then show ?case by simp
next
  case (Cons r rs)
  show ?case
  proof (cases "att_student r")
    case None
    then show ?thesis using Cons.IH [of m0] by auto
  next
    case (Some s)
    then show ?thesis
      using Cons.IH [of "AList.update (att_student_id r) s m0"]
      by (auto simp: dom_update)
  qed
qed

lemma studentsMap_keys:
  "fst ` set (studentsMap rows) = att_student_id ` {r \<in> set rows. att_student r \<noteq> None}"
  by (simp add: studentsMap_def studentsMap_keys_aux)

lemma studentsMap_distinct_aux:
  "distinct (map fst m0) \<Longrightarrow>
   distinct (map fst (foldl (\<lambda>m record. case att_student record of
                          None \<Rightarrow> m
                        | Some s \<Rightarrow> AList.update (att_student_id record) s m) m0 rows))"
proof (induction rows arbitrary: m0)
  case Nil
  then show ?case by simp
next
  case (Cons r rs)
  show ?case
  proof (cases "att_student r")
    case None
    then show ?thesis using Cons by simp
  next
    case (Some s)
    from Cons.prems have "distinct (map fst (AList.update (att_student_id r) s m0))"
      by (rule distinct_update)
    then show ?thesis using Cons.IH Some by simp
  qed
qed

lemma studentsMap_distinct: "distinct (map fst (studentsMap rows))"
  by (simp add: studentsMap_def studentsMap_distinct_aux)

lemma map_of_foldl_update:
  "map_of (foldl (\<lambda>row date. AList.update date (g date) row) row0 dates) d
   = (if d \<in> set dates then Some (g d) else map_of row0 d)"
  by (induction dates arbitrary: row0) (auto simp: update_conv')

lemma pivot_row_cell:
  "d \<in> set dates \<Longrightarrow> map_of (pivot_row rows dates s) d = Some (pivot_cell rows s d)"
  by (simp add: pivot_row_def map_of_foldl_update)

lemma pivot_cell_none:
  assumes "\<forall>r \<in> set rows. \<not> (att_student_id r = Student_id s \<and> att_class_date r = d)"
  shows "pivot_cell rows s d = ''No Record''"
proof -
  from assms have "find (\<lambda>record. att_student_id record = Student_id s \<and> att_class_date record = d) rows = None"
    by (simp add: find_None_iff)
  then show ?thesis by (simp add: pivot_cell_def)
qed

lemma pivot_cell_status:
  assumes "\<exists>r \<in> set rows. att_student_id r = Student_id s \<and> att_class_date r = d"
    and "\<forall>r \<in> set rows. att_student_id r = Student_id s \<and> att_class_date r = d \<longrightarrow> att_status r = v"
    and "v \<noteq> []"
  shows "pivot_cell rows s d = v"
proof -
  from assms(1) obtain r where
    f: "find (\<lambda>record. att_student_id record = Student_id s \<and> att_class_date record = d) rows = Some r"
    by (cases "find (\<lambda>record. att_student_id record = Student_id s \<and> att_class_date record = d) rows")
      (auto simp: find_None_iff)
  then have "r \<in> set rows" and "att_student_id r = Student_id s \<and> att_class_date r = d"
    by (auto simp: find_Some_iff)
  with assms(2) have "att_status r = v" by blast
  with f assms(3) show ?thesis by (simp add: pivot_cell_def)
qed

lemma find_first:
  assumes "P r" and "\<forall>x \<in> set pre. \<not> P x"
  shows "find P (pre @ r # post) = Some r"
  using assms by (induction pre) simp_all

lemma pivot_cell_first:
  assumes "rows = pre @ r # post"
    and "att_student_id r = Student_id s \<and> att_class_date r = d"
    and "\<forall>x \<in> set pre. \<not> (att_student_id x = Student_id s \<and> att_class_date x = d)"
  shows "pivot_cell rows s d = (if att_status r = [] then ''No Record'' else att_status r)"
proof -
  have "find (\<lambda>record. att_student_id record = Student_id s \<and> att_class_date record = d)
          (pre @ r # post) = Some r"
    using assms(2,3) by (rule find_first)
  then show ?thesis unfolding assms(1) by (simp add: pivot_cell_def)
qed

text \<open>
  C3, as stated, fails: the pivot takes its students and its dates from the attendance
  rows themselves. When the only row is (A, 2024-01-01, present), the output is the
  one row of A with the one date column 2024-01-01; there is no row for a student B
  and no column for a second date.
\<close>

theorem attendance_pivot_single_row_counterexample:
  "attendanceReportData (Some [example_row_A])
     = ([[(''student_id'', ''A''), (''student_name'', ''Ann Lee''), (''2024-01-01'', ''present'')]],
        [''2024-01-01''])
   \<and> map (\<lambda>row. map_of row ''student_id'') (fst (attendanceReportData (Some [example_row_A])))
       = [Some ''A'']"
  by (simp add: attendanceReportData_def uniqueDates_def studentsMap_def pivot_row_def
        pivot_cell_def example_row_A_def)

text \<open>
  C3, amended. For a non-empty input, the dates of the pivot are the distinct class
  dates of the input rows in ascending order; there is one row per distinct student
  id among the input rows that carry a joined student; the cell of a row at each of
  these dates is the pivot cell of its student. The pivot cell of a student and a date
  is decided by the first input row for that student and date: it is the status of
  that row, or the sentinel "No Record" when that status is empty; it is the sentinel
  too when the input has no row for that student and date. So once B and the second
  date do occur in the input, B's cell at the first date is "No Record".
\<close>

theorem attendance_pivot:
  assumes "rows \<noteq> []" and "attendanceReportData (Some rows) = (data, dates)"
  shows "set dates = att_class_date ` set rows \<and> sorted dates \<and> distinct dates
         \<and> length data = length (studentsMap rows)
         \<and> distinct (map fst (studentsMap rows))
         \<and> fst ` set (studentsMap rows) = att_student_id ` {r \<in> set rows. att_student r \<noteq> None}
         \<and> (\<forall>i < length data. \<forall>d \<in> set dates.
               map_of (data ! i) d = Some (pivot_cell rows (snd (studentsMap rows ! i)) d))
         \<and> (\<forall>s d. (\<forall>r \<in> set rows. \<not> (att_student_id r = Student_id s \<and> att_class_date r = d))
               \<longrightarrow> pivot_cell rows s d = ''No Record'')
         \<and> (\<forall>s d v. v \<noteq> []
               \<and> (\<exists>r \<in> set rows. att_student_id r = Student_id s \<and> att_class_date r = d)
               \<and> (\<forall>r \<in> set rows. att_student_id r = Student_id s \<and> att_class_date r = d
                      \<longrightarrow> att_status r = v)
               \<longrightarrow> pivot_cell rows s d = v)
         \<and> (\<forall>s d pre r post.
               rows = pre @ r # post
               \<and> (att_student_id r = Student_id s \<and> att_class_date r = d)
               \<and> (\<forall>x \<in> set pre. \<not> (att_student_id x = Student_id s \<and> att_class_date x = d))
               \<longrightarrow> pivot_cell rows s d
                     = (if att_status r = [] then ''No Record'' else att_status r))"
proof -
  from assms have data: "data = map (pivot_row rows (uniqueDates rows)) (map snd (studentsMap rows))"
    and dates: "dates = uniqueDates rows"
    by (auto simp: attendanceReportData_def)
  have cells: "\<forall>i < length data. \<forall>d \<in> set dates.
               map_of (data ! i) d = Some (pivot_cell rows (snd (studentsMap rows ! i)) d)"
    unfolding data dates by (simp add: pivot_row_cell)
  have len: "length data = length (studentsMap rows)" unfolding data by simp
  have d: "set dates = att_class_date ` set rows" "sorted dates" "distinct dates"
    unfolding dates by (rule uniqueDates_props)+
  have none: "\<forall>s d. (\<forall>r \<in> set rows. \<not> (att_student_id r = Student_id s \<and> att_class_date r = d))
               \<longrightarrow> pivot_cell rows s d = ''No Record''"
    by (intro allI impI) (rule pivot_cell_none)
  have some: "\<forall>s d v. v \<noteq> []
               \<and> (\<exists>r \<in> set rows. att_student_id r = Student_id s \<and> att_class_date r = d)
               \<and> (\<forall>r \<in> set rows. att_student_id r = Student_id s \<and> att_class_date r = d
                      \<longrightarrow> att_status r = v)
               \<longrightarrow> pivot_cell rows s d = v"
  proof (intro allI impI, elim conjE)
    fix s :: Student and d v :: string
    assume "v \<noteq> []"
      and "\<exists>r \<in> set rows. att_student_id r = Student_id s \<and> att_class_date r = d"
      and "\<forall>r \<in> set rows. att_student_id r = Student_id s \<and> att_class_date r = d
                      \<longrightarrow> att_status r = v"
    then show "pivot_cell rows s d = v" by (intro pivot_cell_status)
  qed
  have first: "\<forall>s d pre r post.
               rows = pre @ r # post
               \<and> (att_student_id r = Student_id s \<and> att_class_date r = d)
               \<and> (\<forall>x \<in> set pre. \<not> (att_student_id x = Student_id s \<and> att_class_date x = d))
               \<longrightarrow> pivot_cell rows s d
                     = (if att_status r = [] then ''No Record'' else att_status r)"
  proof (intro allI impI, elim conjE)
    fix s :: Student and d :: string and pre post :: "Report_AttendanceRecord list"
      and r :: Report_AttendanceRecord
    assume "rows = pre @ r # post"
      and "att_student_id r = Student_id s" and "att_class_date r = d"
      and "\<forall>x \<in> set pre. \<not> (att_student_id x = Student_id s \<and> att_class_date x = d)"
    then show "pivot_cell rows s d = (if att_status r = [] then ''No Record'' else att_status r)"
      by (intro pivot_cell_first conjI)
  qed
  from d len studentsMap_distinct [of rows] studentsMap_keys [of rows] cells none some first
  show ?thesis by (intro conjI)
qed

theorem attendance_pivot_witness:
  "[example_row_A, example_row_B] \<noteq> []
   \<and> attendanceReportData (Some [example_row_A, example_row_B])
     = ([[(''student_id'', ''A''), (''student_name'', ''Ann Lee''),
          (''2024-01-01'', ''present''), (''2024-01-03'', ''No Record'')],
         [(''student_id'', ''B''), (''student_name'', ''Bob Ray''),
          (''2024-01-01'', ''No Record''), (''2024-01-03'', ''absent'')]],
        [''2024-01-01'', ''2024-01-03''])
   \<and> map_of (fst (attendanceReportData (Some [example_row_A, example_row_B])) ! 1) ''2024-01-01''
       = Some (pivot_cell [example_row_A, example_row_B]
                 \<lparr> Student_id = ''B'', first_name = ''Bob'', last_name = ''Ray'' \<rparr> ''2024-01-01'')
   \<and> pivot_cell [example_row_A, example_row_B]
         \<lparr> Student_id = ''B'', first_name = ''Bob'', last_name = ''Ray'' \<rparr> ''2024-01-01''
       = ''No Record''
   \<and> pivot_cell [example_row_A_blank, example_row_A, example_row_A_again, example_row_A_later]
         \<lparr> Student_id = ''A'', first_name = ''Ann'', last_name = ''Lee'' \<rparr> ''2024-01-01''
       = ''present''
   \<and> pivot_cell [example_row_A_blank, example_row_A, example_row_A_again, example_row_A_later]
         \<lparr> Student_id = ''A'', first_name = ''Ann'', last_name = ''Lee'' \<rparr> ''2024-01-03''
       = ''No Record''"
proof -
  let ?rows = "[example_row_A, example_row_B]"
  let ?data = "[[(''student_id'', ''A''), (''student_name'', ''Ann Lee''),
          (''2024-01-01'', ''present''), (''2024-01-03'', ''No Record'')],
         [(''student_id'', ''B''), (''student_name'', ''Bob Ray''),
          (''2024-01-01'', ''No Record''), (''2024-01-03'', ''absent'')]]"
  let ?A = "\<lparr> Student_id = ''A'', first_name = ''Ann'', last_name = ''Lee'' \<rparr>"
  let ?B = "\<lparr> Student_id = ''B'', first_name = ''Bob'', last_name = ''Ray'' \<rparr>"
  have ne: "?rows \<noteq> []" by simp
  have students: "studentsMap ?rows = [(''A'', ?A), (''B'', ?B)]"
    by (simp add: studentsMap_def example_row_A_def example_row_B_def)
  have dates: "uniqueDates ?rows = [''2024-01-01'', ''2024-01-03'']"
    by (simp add: uniqueDates_def example_row_A_def example_row_B_def)
  have rowA: "pivot_row ?rows [''2024-01-01'', ''2024-01-03''] ?A
      = [(''student_id'', ''A''), (''student_name'', ''Ann Lee''),
          (''2024-01-01'', ''present''), (''2024-01-03'', ''No Record'')]"
    by (simp add: pivot_row_def pivot_cell_def example_row_A_def example_row_B_def)
  have rowB: "pivot_row ?rows [''2024-01-01'', ''2024-01-03''] ?B
      = [(''student_id'', ''B''), (''student_name'', ''Bob Ray''),
          (''2024-01-01'', ''No Record''), (''2024-01-03'', ''absent'')]"
    by (simp add: pivot_row_def pivot_cell_def example_row_A_def example_row_B_def)
  have run: "attendanceReportData (Some ?rows) = (?data, [''2024-01-01'', ''2024-01-03''])"
    by (simp add: attendanceReportData_def dates students rowA rowB)
  from attendance_pivot [OF ne run]
  have cells: "\<forall>i < length ?data. \<forall>d \<in> set [''2024-01-01'', ''2024-01-03''].
               map_of (?data ! i) d = Some (pivot_cell ?rows (snd (studentsMap ?rows ! i)) d)"
    and none: "\<forall>s d. (\<forall>r \<in> set ?rows. \<not> (att_student_id r = Student_id s \<and> att_class_date r = d))
               \<longrightarrow> pivot_cell ?rows s d = ''No Record''"
    by blast+
  have "map_of (?data ! 1) ''2024-01-01''
      = Some (pivot_cell ?rows (snd (studentsMap ?rows ! 1)) ''2024-01-01'')"
    using cells [rule_format, of 1 "''2024-01-01''"] by simp
  then have cell: "map_of (fst (attendanceReportData (Some ?rows)) ! 1) ''2024-01-01''
      = Some (pivot_cell ?rows ?B ''2024-01-01'')"
    by (simp add: run students)
  have "\<forall>r \<in> set ?rows. \<not> (att_student_id r = Student_id ?B \<and> att_class_date r = ''2024-01-01'')"
    by (simp add: example_row_A_def example_row_B_def)
  with none have absent: "pivot_cell ?rows ?B ''2024-01-01'' = ''No Record''" by blast
  let ?more = "[example_row_A_blank, example_row_A, example_row_A_again, example_row_A_later]"
  have ne': "?more \<noteq> []" by simp
  have run': "attendanceReportData (Some ?more)
                = (fst (attendanceReportData (Some ?more)), snd (attendanceReportData (Some ?more)))"
    by simp
  from attendance_pivot [OF ne' run']
  have first: "\<forall>s d pre r post.
               ?more = pre @ r # post
               \<and> (att_student_id r = Student_id s \<and> att_class_date r = d)
               \<and> (\<forall>x \<in> set pre. \<not> (att_student_id x = Student_id s \<and> att_class_date x = d))
               \<longrightarrow> pivot_cell ?more s d
                     = (if att_status r = [] then ''No Record'' else att_status r)"
    by (elim conjE)
  have split1: "?more = [example_row_A_blank] @ example_row_A # [example_row_A_again, example_row_A_later]"
    by simp
  have match1: "att_student_id example_row_A = Student_id ?A
                \<and> att_class_date example_row_A = ''2024-01-01''"
    by (simp add: example_row_A_def)
  have before1: "\<forall>x \<in> set [example_row_A_blank].
                   \<not> (att_student_id x = Student_id ?A \<and> att_class_date x = ''2024-01-01'')"
    by (simp add: example_row_A_blank_def)
  from first split1 match1 before1
  have "pivot_cell ?more ?A ''2024-01-01''
          = (if att_status example_row_A = [] then ''No Record'' else att_status example_row_A)"
    by blast
  then have present1: "pivot_cell ?more ?A ''2024-01-01'' = ''present''"
    by (simp add: example_row_A_def)
  have split2: "?more = [] @ example_row_A_blank # [example_row_A, example_row_A_again, example_row_A_later]"
    by simp
  have match2: "att_student_id example_row_A_blank = Student_id ?A
                \<and> att_class_date example_row_A_blank = ''2024-01-03''"
    by (simp add: example_row_A_blank_def)
  have before2: "\<forall>x \<in> set ([] :: Report_AttendanceRecord list).
                   \<not> (att_student_id x = Student_id ?A \<and> att_class_date x = ''2024-01-03'')"
    by simp
  from first split2 match2 before2
  have "pivot_cell ?more ?A ''2024-01-03''
          = (if att_status example_row_A_blank = [] then ''No Record''
             else att_status example_row_A_blank)"
    by blast
  then have blank2: "pivot_cell ?more ?A ''2024-01-03'' = ''No Record''"
    by (simp add: example_row_A_blank_def)
  from ne run cell absent present1 blank2 show ?thesis by (intro conjI)
qed

subsection \<open>Schedule date derivation\<close>

text \<open>The days of the example, and the days of it the loop accepts.\<close>

lemma example_days:
  "days_from_civil 1970 1 1 = 0 \<and> format_EEEE (days_from_civil 1970 1 1) = ''Thursday''
   \<and> days_from_civil 2024 1 1 = 19723 \<and> format_EEEE (days_from_civil 2024 1 1) = ''Monday''
   \<and> days_from_civil 2024 1 14 = 19736 \<and> format_EEEE (days_from_civil 2024 1 14) = ''Sunday''"
  by (simp add: days_from_civil_def format_EEEE_def getDay_def)

lemma example_class_days:
  "filter (\<lambda>t. format_EEEE t \<in> set [''Monday'', ''Wednesday''] \<and> \<not> isWeekend t
                 \<and> t \<notin> set [days_from_civil 2024 1 8])
     [days_from_civil 2024 1 1 .. days_from_civil 2024 1 14]
   = [days_from_civil 2024 1 1, days_from_civil 2024 1 3, days_from_civil 2024 1 10]"
  by code_simp

lemma advance_fst: "fst (advance a h) = next_free h"
  by (simp add: advance_def setDate_tomorrow_def new_Date_def)

lemma advance_next_free: "next_free (snd (advance a h)) = Suc (next_free h)"
  by (simp add: advance_def setDate_tomorrow_def new_Date_def)

lemma advance_getTime:
  "getTime (snd (advance a h)) x
   = (if x = next_free h \<or> x = a then getTime h a + 1 else getTime h x)"
  by (simp add: advance_def setDate_tomorrow_def new_Date_def getTime_def)

lemma new_Date_fst: "fst (new_Date t h) = next_free h"
  by (simp add: new_Date_def)

lemma new_Date_next_free: "next_free (snd (new_Date t h)) = Suc (next_free h)"
  by (simp add: new_Date_def)

lemma new_Date_getTime:
  "getTime (snd (new_Date t h)) x = (if x = next_free h then t else getTime h x)"
  by (simp add: new_Date_def getTime_def)

lemma new_Dates_props:
  assumes "new_Dates ts h = (as, h')"
  shows "next_free h' = next_free h + length ts
         \<and> (\<forall>a \<in> set as. next_free h \<le> a \<and> a < next_free h')
         \<and> (\<forall>x < next_free h. getTime h' x = getTime h x)
         \<and> map (getTime h') as = ts"
  using assms
proof (induction ts arbitrary: h as h')
  case Nil
  then show ?case by simp
next
  case (Cons t ts)
  obtain as1 h2 where rest: "new_Dates ts (snd (new_Date t h)) = (as1, h2)"
    by (cases "new_Dates ts (snd (new_Date t h))")
  with Cons.prems have as: "as = next_free h # as1" and h': "h' = h2"
    by (simp_all add: new_Date_def split: prod.splits)
  from Cons.IH [OF rest]
  have nf: "next_free h2 = Suc (next_free h) + length ts"
    and range: "\<forall>a \<in> set as1. Suc (next_free h) \<le> a \<and> a < next_free h2"
    and old: "\<forall>x < Suc (next_free h). getTime h2 x = getTime (snd (new_Date t h)) x"
    and vals: "map (getTime h2) as1 = ts"
    by (auto simp: new_Date_next_free)
  from old have here: "getTime h2 (next_free h) = t"
    by (simp add: new_Date_getTime)
  from old have before: "\<forall>x < next_free h. getTime h2 x = getTime h x"
    by (simp add: new_Date_getTime)
  show ?case
    unfolding as h' using nf range here before vals by auto
qed


lemma classDates_loop_result:
  assumes "n = nat (getTime h endDate + 1 - getTime h currentDate)"
    and "currentDate < next_free h" and "endDate < next_free h" and "currentDate \<noteq> endDate"
    and "\<forall>b \<in> set breakDates. b < next_free h \<and> b \<noteq> currentDate"
    and "\<forall>a \<in> set dates. a < next_free h \<and> a \<noteq> currentDate"
  shows "\<exists>dates' h'.
           classDates_loop ds breakDates endDate currentDate dates h = Some (dates', h')
           \<and> map (getTime h') dates'
               = map (getTime h) dates
                 @ map (\<lambda>t. t + 1)
                     (filter (\<lambda>t. format_EEEE t \<in> set ds \<and> \<not> isWeekend t
                                   \<and> t \<notin> getTime h ` set breakDates)
                        [getTime h currentDate .. getTime h endDate])"
  using assms
proof (induction n arbitrary: currentDate dates h)
  case 0
  then have after: "getTime h endDate < getTime h currentDate" by simp
  then have "classDates_loop ds breakDates endDate currentDate dates h = Some (dates, h)"
    by (subst classDates_loop.simps) simp
  moreover from after have "[getTime h currentDate .. getTime h endDate] = []" by simp
  ultimately show ?case by simp
next
  case (Suc n)
  let ?c = "getTime h currentDate" and ?e = "getTime h endDate"
  let ?h2 = "snd (advance currentDate h)" and ?a = "next_free h"
  let ?dates = "if is_class_day ds breakDates currentDate h then dates @ [currentDate] else dates"
  let ?ok = "\<lambda>t. format_EEEE t \<in> set ds \<and> \<not> isWeekend t \<and> t \<notin> getTime h ` set breakDates"
  from Suc.prems(1) have le: "?c \<le> ?e" by simp
  have e2: "getTime ?h2 endDate = ?e"
    using Suc.prems(3,4) by (simp add: advance_getTime)
  have a2: "getTime ?h2 ?a = ?c + 1"
    by (simp add: advance_getTime)
  have c2: "getTime ?h2 currentDate = ?c + 1"
    by (simp add: advance_getTime)
  have b2: "getTime ?h2 b = getTime h b" if "b \<in> set breakDates" for b
    using Suc.prems(5) that by (auto simp: advance_getTime)
  have d2: "getTime ?h2 x = getTime h x" if "x \<in> set dates" for x
    using Suc.prems(6) that by (auto simp: advance_getTime)
  have breaks: "getTime ?h2 ` set breakDates = getTime h ` set breakDates"
    using b2 by (rule image_cong [OF refl])
  have step: "classDates_loop ds breakDates endDate currentDate dates h
                = classDates_loop ds breakDates endDate ?a ?dates ?h2"
    using le by (subst classDates_loop.simps) (simp add: advance_fst)
  have "\<exists>dates' h'.
           classDates_loop ds breakDates endDate ?a ?dates ?h2 = Some (dates', h')
           \<and> map (getTime h') dates'
               = map (getTime ?h2) ?dates
                 @ map (\<lambda>t. t + 1)
                     (filter (\<lambda>t. format_EEEE t \<in> set ds \<and> \<not> isWeekend t
                                   \<and> t \<notin> getTime ?h2 ` set breakDates)
                        [getTime ?h2 ?a .. getTime ?h2 endDate])"
  proof (rule Suc.IH)
    show "n = nat (getTime ?h2 endDate + 1 - getTime ?h2 ?a)"
      using Suc.prems(1) by (simp add: e2 a2)
    show "?a < next_free ?h2" by (simp add: advance_next_free)
    show "endDate < next_free ?h2" using Suc.prems(3) by (simp add: advance_next_free)
    show "?a \<noteq> endDate" using Suc.prems(3) by simp
    show "\<forall>b \<in> set breakDates. b < next_free ?h2 \<and> b \<noteq> ?a"
      using Suc.prems(5) by (auto simp: advance_next_free)
    show "\<forall>x \<in> set ?dates. x < next_free ?h2 \<and> x \<noteq> ?a"
      using Suc.prems(2,6) by (auto simp: advance_next_free)
  qed
  then obtain dates' h' where
    run: "classDates_loop ds breakDates endDate ?a ?dates ?h2 = Some (dates', h')"
    and vals: "map (getTime h') dates'
               = map (getTime ?h2) ?dates
                 @ map (\<lambda>t. t + 1) (filter ?ok [?c + 1 .. ?e])"
    unfolding breaks e2 a2 by blast
  have test: "is_class_day ds breakDates currentDate h = ?ok ?c"
    unfolding is_class_day_def same_yyyy_MM_dd_def image_iff by metis
  have old: "map (getTime ?h2) dates = map (getTime h) dates"
    using d2 by simp
  have pushed: "map (getTime ?h2) ?dates
                  = map (getTime h) dates @ (if ?ok ?c then [?c + 1] else [])"
    using old c2 test by simp
  have range: "[?c .. ?e] = ?c # [?c + 1 .. ?e]"
    using le by (rule upto_rec1)
  have "map (getTime h') dates'
          = map (getTime h) dates @ map (\<lambda>t. t + 1) (filter ?ok [?c .. ?e])"
    unfolding vals pushed range by simp
  with step run show ?case by simp
qed

text \<open>
  What the loop returns, for a classroom with a schedule and a quarter with break
  dates: the loop always ends, and the array it returns shows, for every day from the
  start date to the end date whose weekday is scheduled, which is no weekend day and
  no break date, in ascending order, the day after it. The reference pushed is to the
  very object that \<open>setDate\<close> then moves to the next day.
\<close>

lemma classDates_shifted:
  assumes "selected \<noteq> []"
    and "find (\<lambda>c. Classroom_id c = selected) cs = Some classroom"
    and "class_schedule classroom = Some schedule" and "days schedule = Some ds"
    and "break_dates q = Some bs"
  shows "classDates selected (Some q) (Some cs)
         = Some (Inr (map (\<lambda>t. t + 1)
                        (filter (\<lambda>t. format_EEEE t \<in> set ds \<and> \<not> isWeekend t \<and> t \<notin> set bs)
                           [start_date q .. end_date q])))"
proof -
  let ?h1 = "snd (new_Date (start_date q) empty_heap)"
  let ?h2 = "snd (new_Date (end_date q) ?h1)"
  obtain breakDates h3 where alloc: "new_Dates bs ?h2 = (breakDates, h3)"
    by (cases "new_Dates bs ?h2")
  have nf2: "next_free ?h2 = 2"
    by (simp add: new_Date_next_free empty_heap_def)
  from new_Dates_props [OF alloc]
  have nf3: "next_free h3 = 2 + length bs"
    and range: "\<forall>a \<in> set breakDates. 2 \<le> a \<and> a < next_free h3"
    and old: "\<forall>x < 2. getTime h3 x = getTime ?h2 x"
    and vals: "map (getTime h3) breakDates = bs"
    unfolding nf2 by blast+
  have start: "getTime h3 0 = start_date q"
    using old by (simp add: new_Date_getTime new_Date_next_free empty_heap_def)
  have finish: "getTime h3 1 = end_date q"
    using old by (simp add: new_Date_getTime new_Date_next_free empty_heap_def)
  have breaks: "getTime h3 ` set breakDates = set bs"
    using vals by (metis set_map)
  have "\<exists>dates' h'.
           classDates_loop ds breakDates 1 0 [] h3 = Some (dates', h')
           \<and> map (getTime h') dates'
               = map (getTime h3) []
                 @ map (\<lambda>t. t + 1)
                     (filter (\<lambda>t. format_EEEE t \<in> set ds \<and> \<not> isWeekend t
                                   \<and> t \<notin> getTime h3 ` set breakDates)
                        [getTime h3 0 .. getTime h3 1])"
  proof (rule classDates_loop_result [OF refl])
    show "0 < next_free h3" "1 < next_free h3" using nf3 by simp_all
    show "(0::nat) \<noteq> 1" by simp
    show "\<forall>b \<in> set breakDates. b < next_free h3 \<and> b \<noteq> 0" using range by auto
    show "\<forall>a \<in> set []. a < next_free h3 \<and> a \<noteq> 0" by simp
  qed
  then obtain dates' h' where
    run: "classDates_loop ds breakDates 1 0 [] h3 = Some (dates', h')"
    and result: "map (getTime h') dates'
               = map (\<lambda>t. t + 1)
                     (filter (\<lambda>t. format_EEEE t \<in> set ds \<and> \<not> isWeekend t \<and> t \<notin> set bs)
                        [start_date q .. end_date q])"
    unfolding breaks start finish by auto
  have parsed: "map parseISO bs = bs"
    by (rule map_idI) (simp add: parseISO_def)
  have empty: "next_free empty_heap = 0"
    by (simp add: empty_heap_def)
  show ?thesis
    unfolding classDates_def
    using assms alloc run result
    by (simp add: case_prod_beta parsed parseISO_def new_Date_fst new_Date_next_free empty)
qed

text \<open>The memo returns on every input: the loop never runs forever.\<close>

lemma classDates_returns: "\<exists>r. classDates selected quarter classrooms = Some r"
proof (cases quarter)
  case None
  then show ?thesis by (simp add: classDates_def)
next
  case (Some q)
  note q = this
  show ?thesis
  proof (cases "selected = []")
    case True
    with q show ?thesis by (simp add: classDates_def)
  next
    case False
    note selected = this
    show ?thesis
    proof (cases "case classrooms of None \<Rightarrow> None
                   | Some cs \<Rightarrow> find (\<lambda>c. Classroom_id c = selected) cs")
      case None
      with q selected show ?thesis by (simp add: classDates_def)
    next
      case (Some classroom)
      then obtain cs where cs: "classrooms = Some cs"
        and found: "find (\<lambda>c. Classroom_id c = selected) cs = Some classroom"
        by (cases classrooms) simp_all
      show ?thesis
      proof (cases "class_schedule classroom")
        case None
        with q selected cs found show ?thesis by (simp add: classDates_def)
      next
        case (Some schedule)
        note schedule = this
        show ?thesis
        proof (cases "days schedule")
          case None
          with q selected cs found schedule show ?thesis by (simp add: classDates_def)
        next
          case (Some ds)
          note ds = this
          show ?thesis
          proof (cases "break_dates q")
            case None
            with q selected cs found schedule ds show ?thesis
              by (simp add: classDates_def split: prod.splits)
          next
            case (Some bs)
            from classDates_shifted [OF selected found schedule ds Some] q cs
            show ?thesis by simp
          qed
        qed
      qed
    qed
  qed
qed

text \<open>
  C1. On the example of the specification (Mondays and Wednesdays, 2024-01-01 to
  2024-01-14, break on 2024-01-08) the derived list shows 2024-01-02, 2024-01-04 and
  2024-01-11, not the class dates 2024-01-01, 2024-01-03 and 2024-01-10.
\<close>

theorem classDates_example:
  "classDates ''c1'' (Some example_quarter) (Some [example_classroom])
     = Some (Inr [days_from_civil 2024 1 2, days_from_civil 2024 1 4, days_from_civil 2024 1 11])
   \<and> classDates ''c1'' (Some example_quarter) (Some [example_classroom])
     \<noteq> Some (Inr [days_from_civil 2024 1 1, days_from_civil 2024 1 3, days_from_civil 2024 1 10])"
  by code_simp

end
